theory Spec2Isabelle
  imports Complex_Main
begin

section \<open>The session facade of \<open>helper/rtc.ts\<close>\<close>

text \<open>
  \<open>RTCHelper\<close> wraps a client object of the real-time SDK. The model keeps the fields of the
  class as a record, passes that record through every method, and writes everything the SDK
  decides (whether a promise resolves or rejects, which track a factory returns, which
  levels and counters a track reports) as an argument of the method that asks for it.
  An \<open>async\<close> method comes in two forms. The awaited call (\<open>join\<close>, \<open>publish\<close>, ...) is
  one function from the state before the call to the state after its promise has settled,
  with nothing happening in between. The overlapping call is \<open>begin_call\<close>, which runs the method
  up to its \<open>await\<close> and leaves the rest suspended, and \<open>settle\<close>, which runs the rest when
  the SDK settles the promise; between the two anything else may run, other calls included.
  An awaited call is the same as \<open>begin_call\<close> followed at once by \<open>settle\<close> (\<open>awaited_call\<close>).
\<close>

subsection \<open>Data\<close>

text \<open>
  Modelled from the spec: the enum \<open>ConnectionState\<close> of \<open>../type\<close>, one of disconnected,
  connecting, connected, reconnecting, failed, under the names the class uses for it.
\<close>

datatype ConnectionState = DISCONNECTED | CONNECTING | CONNECTED | RECONNECTING | FAILED

text \<open>A thrown or rejected value: \<open>new Error(message)\<close>, or whatever the SDK rejects with.\<close>

datatype error = Error string

text \<open>How a promise of the SDK settles.\<close>

datatype 'a outcome = Resolved 'a | Rejected error

text \<open>
  The second argument of the SDK's \<open>user-published\<close> callback. The handler compares it with
  \<open>"audio"\<close> and \<open>"video"\<close> and casts it for the event, so a third value is kept.
\<close>

datatype media_type = Audio | Video | Datachannel

text \<open>
  A local track is an object of the SDK; the facade reads its \<open>enabled\<close> flag and calls its
  methods. Remote tracks are only passed on and asked for numbers, so they are their identity.
\<close>

record local_track =
  trackId :: nat
  enabled :: bool

record remote_user =
  ru_uid :: int
  ru_audioTrack :: "nat option"
  ru_videoTrack :: "nat option"

text \<open>
  The payloads of the participant events: \<open>{uid, audioTrack, hasAudio}\<close>, and for a published
  video \<open>{uid, videoTrack, hasVideo}\<close>.
\<close>

datatype user_info =
    RemoteUser int "nat option" bool
  | RemoteVideoUser int "nat option" bool

text \<open>
  Modelled from the spec: the event vocabulary \<open>RTCHelperEvents\<close> of \<open>../type\<close>, each
  event with the arguments the class passes to \<open>emit\<close>.
\<close>

datatype event =
    USER_PUBLISHED user_info media_type
  | USER_UNPUBLISHED user_info media_type
  | USER_JOINED user_info
  | USER_LEFT user_info
  | CONNECTION_STATE_CHANGED ConnectionState
  | NETWORK_QUALITY int int
  | STREAM_MESSAGE int "nat list"
  | VOLUME_INDICATOR "(int \<times> real) list"
  | AUDIO_PTS nat
  | ERROR error

text \<open>The calls the facade makes on the SDK, in the order it makes them.\<close>

datatype sdk_call =
    ClientOn nat string
  | CreateMicrophoneAudioTrack string bool bool bool
  | CreateCameraVideoTrack "string option" string
  | ClientJoin nat string string "string option" int
  | ClientPublish nat nat
  | ClientUnpublish nat nat
  | ClientLeave nat
  | ClientSubscribe nat int media_type
  | TrackStop nat
  | TrackClose nat
  | TrackSetEnabled nat bool
  | RemoteTrackPlay nat

record init_config =
  cfg_appId :: string
  cfg_channel :: string
  cfg_token :: "string option"
  cfg_uid :: int
  cfg_shouldSubscribeAudio :: "(int \<Rightarrow> bool) option"
  cfg_shouldSubscribeVideo :: "(int \<Rightarrow> bool) option"

record audio_config =
  ac_encoderConfig :: "string option"
  ac_AEC :: "bool option"
  ac_ANS :: "bool option"
  ac_AGC :: "bool option"

record video_config =
  vc_cameraId :: "string option"
  vc_encoderConfig :: "string option"

text \<open>
  What is left of an \<open>async\<close> method that is suspended at its \<open>await\<close>: which method it
  is, and what the rest of it still holds (the track and flag of a \<open>setEnabled\<close> call, the
  media type of a subscription).
\<close>

datatype continuation =
    AwaitCreateAudioTrack
  | AwaitCreateVideoTrack
  | AwaitJoin
  | AwaitPublish
  | AwaitUnpublish
  | AwaitLeave
  | AwaitSetMuted nat bool
  | AwaitSetVideoEnabled nat bool
  | AwaitSubscribe media_type

text \<open>
  The fields of the class, then what it inherits from \<open>EventHelper\<close> (the registered
  listeners and the trace of \<open>emit\<close> calls), then the part of the environment the class
  drives: the calls made on the SDK, the interval timers it has set and not cleared, the
  next timer handle, the animation-frame callbacks that are pending (each one is the
  \<open>emitPTS\<close> closure of one \<open>startAudioPTSEmission\<close> call, kept as the track it captured),
  and the methods of this helper that are suspended at an \<open>await\<close>.
\<close>

record RTCHelper =
  client :: "nat option"
  localAudioTrack :: "local_track option"
  localVideoTrack :: "local_track option"
  appId :: string
  channel :: string
  token :: "string option"
  uid :: int
  connectionState :: ConnectionState
  volumeIntervalRef :: "nat option"
  shouldSubscribeAudio :: "(int \<Rightarrow> bool) option"
  shouldSubscribeVideo :: "(int \<Rightarrow> bool) option"
  listeners :: "(string \<times> nat) list"
  emitted :: "event list"
  sdkCalls :: "sdk_call list"
  timers :: "nat set"
  nextTimer :: nat
  frameCallbacks :: "nat option list"
  suspended :: "continuation list"

text \<open>The field initialisers and the empty constructor.\<close>

definition new_RTCHelper :: RTCHelper where
  "new_RTCHelper =
     \<lparr> client = None, localAudioTrack = None, localVideoTrack = None,
       appId = [], channel = [], token = None, uid = 0,
       connectionState = DISCONNECTED, volumeIntervalRef = None,
       shouldSubscribeAudio = None, shouldSubscribeVideo = None,
       listeners = [], emitted = [], sdkCalls = [],
       timers = {}, nextTimer = 1, frameCallbacks = [], suspended = [] \<rparr>"

subsection \<open>The inherited event bus\<close>

text \<open>
  Modelled from the spec: \<open>EventHelper\<close> (\<open>../utils/event\<close>) is the generic named-event bus the
  class extends. \<open>emit\<close> hands one event of the vocabulary to the listeners; the model
  records the call in the trace \<open>emitted\<close>.
\<close>

definition emit :: "RTCHelper \<Rightarrow> event \<Rightarrow> RTCHelper" where
  "emit s e = s\<lparr>emitted := emitted s @ [e]\<rparr>"

text \<open>
  Modelled from the spec: \<open>on\<close> and \<open>removeAllListeners\<close> of \<open>EventHelper\<close>, the
  listener-registration interface of the bus.
\<close>

definition on :: "RTCHelper \<Rightarrow> string \<Rightarrow> nat \<Rightarrow> RTCHelper" where
  "on s name cb = s\<lparr>listeners := listeners s @ [(name, cb)]\<rparr>"

definition removeAllListeners :: "RTCHelper \<Rightarrow> RTCHelper" where
  "removeAllListeners s = s\<lparr>listeners := []\<rparr>"

text \<open>A call on the SDK, appended to the log.\<close>

definition sdk :: "RTCHelper \<Rightarrow> sdk_call \<Rightarrow> RTCHelper" where
  "sdk s c = s\<lparr>sdkCalls := sdkCalls s @ [c]\<rparr>"

subsection \<open>Private methods\<close>

definition setConnectionState :: "RTCHelper \<Rightarrow> ConnectionState \<Rightarrow> RTCHelper" where
  "setConnectionState s st =
     (if connectionState s \<noteq> st
      then emit (s\<lparr>connectionState := st\<rparr>) (CONNECTION_STATE_CHANGED st)
      else s)"

text \<open>
  \<open>setInterval\<close> hands out a handle that no live timer has; \<open>clearInterval\<close> removes the timer.
\<close>

definition startVolumeMonitoring :: "RTCHelper \<Rightarrow> RTCHelper" where
  "startVolumeMonitoring s =
     (case volumeIntervalRef s of
        Some t \<Rightarrow> s
      | None \<Rightarrow> s\<lparr>volumeIntervalRef := Some (nextTimer s),
                   timers := insert (nextTimer s) (timers s),
                   nextTimer := Suc (nextTimer s)\<rparr>)"

definition stopVolumeMonitoring :: "RTCHelper \<Rightarrow> RTCHelper" where
  "stopVolumeMonitoring s =
     (case volumeIntervalRef s of
        Some t \<Rightarrow> s\<lparr>timers := timers s - {t}, volumeIntervalRef := None\<rparr>
      | None \<Rightarrow> s)"

text \<open>
  The body of the interval callback. \<open>remoteUsers\<close> is \<open>client.remoteUsers\<close> at that moment
  and \<open>level\<close> what \<open>getVolumeLevel()\<close> answers for a track.
\<close>

definition volumeCallback ::
  "RTCHelper \<Rightarrow> remote_user list \<Rightarrow> (nat \<Rightarrow> real) \<Rightarrow> RTCHelper" where
  "volumeCallback s remoteUsers level =
     (case client s of
        None \<Rightarrow> s
      | Some c \<Rightarrow>
          (let volumes =
                 (case localAudioTrack s of
                    Some t \<Rightarrow> [(uid s, level (trackId t))]
                  | None \<Rightarrow> [])
                 @ concat (map (\<lambda>u. case ru_audioTrack u of
                                        Some t \<Rightarrow> [(ru_uid u, level t)]
                                      | None \<Rightarrow> []) remoteUsers)
           in if volumes \<noteq> [] then emit s (VOLUME_INDICATOR volumes) else s))"

text \<open>The environment runs the callback of timer \<open>t\<close> only while \<open>t\<close> has not been cleared.\<close>

definition intervalFires ::
  "RTCHelper \<Rightarrow> nat \<Rightarrow> remote_user list \<Rightarrow> (nat \<Rightarrow> real) \<Rightarrow> RTCHelper" where
  "intervalFires s t remoteUsers level =
     (if t \<in> timers s then volumeCallback s remoteUsers level else s)"

text \<open>
  \<open>emitPTS\<close>: read \<open>receiveFrames\<close> from the track's statistics (\<open>|| 0\<close> when it is missing),
  emit it, and ask for the next animation frame. \<open>startAudioPTSEmission\<close> calls it once.
\<close>

definition emitPTS :: "RTCHelper \<Rightarrow> nat option \<Rightarrow> (nat \<Rightarrow> nat option) \<Rightarrow> RTCHelper" where
  "emitPTS s audioTrack receiveFrames =
     (let s1 = (case audioTrack of
                  Some t \<Rightarrow> emit s (AUDIO_PTS (case receiveFrames t of Some n \<Rightarrow> n | None \<Rightarrow> 0))
                | None \<Rightarrow> s)
      in s1\<lparr>frameCallbacks := frameCallbacks s1 @ [audioTrack]\<rparr>)"

definition startAudioPTSEmission ::
  "RTCHelper \<Rightarrow> nat option \<Rightarrow> (nat \<Rightarrow> nat option) \<Rightarrow> RTCHelper" where
  "startAudioPTSEmission s audioTrack receiveFrames = emitPTS s audioTrack receiveFrames"

text \<open>
  One rendering frame: the environment takes the callbacks that are pending and runs each;
  what they request is pending for the frame after.
\<close>

definition animationFrame :: "RTCHelper \<Rightarrow> (nat \<Rightarrow> nat option) \<Rightarrow> RTCHelper" where
  "animationFrame s receiveFrames =
     foldl (\<lambda>s' t. emitPTS s' t receiveFrames) (s\<lparr>frameCallbacks := []\<rparr>) (frameCallbacks s)"

subsection \<open>Public methods\<close>

text \<open>
  \<open>setupEventListeners\<close> registers one handler per SDK event on the client; the handlers
  themselves are the functions \<open>onUserPublished\<close> ... \<open>onException\<close> further down.
\<close>

definition setupEventListeners :: "RTCHelper \<Rightarrow> RTCHelper" where
  "setupEventListeners s =
     (case client s of
        None \<Rightarrow> s
      | Some c \<Rightarrow>
          foldl (\<lambda>s' name. sdk s' (ClientOn c name)) s
            [''user-published'', ''user-unpublished'', ''user-joined'', ''user-left'',
             ''connection-state-change'', ''network-quality'', ''stream-message'',
             ''exception''])"

text \<open>\<open>newClient\<close> is the object \<open>AgoraRTC.createClient\<close> returns.\<close>

definition init :: "RTCHelper \<Rightarrow> init_config \<Rightarrow> nat \<Rightarrow> RTCHelper" where
  "init s config newClient =
     setupEventListeners
       (s\<lparr>appId := cfg_appId config, channel := cfg_channel config,
          token := cfg_token config, uid := cfg_uid config,
          shouldSubscribeAudio := cfg_shouldSubscribeAudio config,
          shouldSubscribeVideo := cfg_shouldSubscribeVideo config,
          client := Some newClient\<rparr>)"

text \<open>\<open>a || b\<close> on an optional string: the empty string is falsy too.\<close>

definition or_default :: "string option \<Rightarrow> string \<Rightarrow> string" where
  "or_default a b = (case a of None \<Rightarrow> b | Some x \<Rightarrow> if x = [] then b else x)"

text \<open>\<open>a ?? true\<close> on an optional boolean.\<close>

definition nullish_true :: "bool option \<Rightarrow> bool" where
  "nullish_true a = (case a of None \<Rightarrow> True | Some b \<Rightarrow> b)"

definition createAudioTrack ::
  "RTCHelper \<Rightarrow> audio_config option \<Rightarrow> local_track outcome \<Rightarrow> (error + local_track) \<times> RTCHelper"
where
  "createAudioTrack s config r =
     (let s1 = sdk s (CreateMicrophoneAudioTrack
                        (or_default (case config of None \<Rightarrow> None | Some c \<Rightarrow> ac_encoderConfig c)
                           ''high_quality_stereo'')
                        (nullish_true (case config of None \<Rightarrow> None | Some c \<Rightarrow> ac_AEC c))
                        (nullish_true (case config of None \<Rightarrow> None | Some c \<Rightarrow> ac_ANS c))
                        (nullish_true (case config of None \<Rightarrow> None | Some c \<Rightarrow> ac_AGC c)))
      in case r of
           Resolved t \<Rightarrow> (Inr t, s1\<lparr>localAudioTrack := Some t\<rparr>)
         | Rejected e \<Rightarrow> (Inl e, s1))"

definition createVideoTrack ::
  "RTCHelper \<Rightarrow> video_config option \<Rightarrow> local_track outcome \<Rightarrow> (error + local_track) \<times> RTCHelper"
where
  "createVideoTrack s config r =
     (let s1 = sdk s (CreateCameraVideoTrack
                        (case config of None \<Rightarrow> None | Some c \<Rightarrow> vc_cameraId c)
                        (or_default (case config of None \<Rightarrow> None | Some c \<Rightarrow> vc_encoderConfig c)
                           ''720p_2''))
      in case r of
           Resolved t \<Rightarrow> (Inr t, s1\<lparr>localVideoTrack := Some t\<rparr>)
         | Rejected e \<Rightarrow> (Inl e, s1))"

text \<open>
  \<open>join\<close>: up to the \<open>await\<close> (\<open>join_start\<close>), and from the settled promise on
  (\<open>join_resume\<close>).
\<close>

definition join_start :: "RTCHelper \<Rightarrow> nat \<Rightarrow> RTCHelper" where
  "join_start s c =
     sdk (setConnectionState s CONNECTING) (ClientJoin c (appId s) (channel s) (token s) (uid s))"

definition join_resume :: "RTCHelper \<Rightarrow> unit outcome \<Rightarrow> (error + unit) \<times> RTCHelper" where
  "join_resume s r =
     (case r of
        Resolved u \<Rightarrow> (Inr (), setConnectionState s CONNECTED)
      | Rejected e \<Rightarrow> (Inl e, emit (setConnectionState s FAILED) (ERROR e)))"

definition join :: "RTCHelper \<Rightarrow> unit outcome \<Rightarrow> (error + unit) \<times> RTCHelper" where
  "join s r =
     (case client s of
        None \<Rightarrow> (Inl (Error ''RTC client not initialized. Call init() first.''), s)
      | Some c \<Rightarrow> join_resume (join_start s c) r)"

definition publish :: "RTCHelper \<Rightarrow> unit outcome \<Rightarrow> (error + unit) \<times> RTCHelper" where
  "publish s r =
     (case client s of
        None \<Rightarrow> (Inl (Error ''Client or audio track not ready''), s)
      | Some c \<Rightarrow>
          (case localAudioTrack s of
             None \<Rightarrow> (Inl (Error ''Client or audio track not ready''), s)
           | Some t \<Rightarrow>
               (let s1 = sdk s (ClientPublish c (trackId t))
                in case r of
                     Resolved u \<Rightarrow> (Inr (), startVolumeMonitoring s1)
                   | Rejected e \<Rightarrow> (Inl e, s1))))"

definition unpublish :: "RTCHelper \<Rightarrow> unit outcome \<Rightarrow> (error + unit) \<times> RTCHelper" where
  "unpublish s r =
     (case client s of
        None \<Rightarrow> (Inr (), s)
      | Some c \<Rightarrow>
          (case localAudioTrack s of
             None \<Rightarrow> (Inr (), s)
           | Some t \<Rightarrow>
               (let s1 = sdk s (ClientUnpublish c (trackId t))
                in case r of
                     Resolved u \<Rightarrow> (Inr (), stopVolumeMonitoring s1)
                   | Rejected e \<Rightarrow> (Inl e, s1))))"

text \<open>
  \<open>leave\<close>: everything up to \<open>await this.client.leave()\<close> (\<open>leave_start\<close>), and the line after
  it (\<open>leave_resume\<close>), which runs only when the promise resolves.
\<close>

definition leave_start :: "RTCHelper \<Rightarrow> nat \<Rightarrow> RTCHelper" where
  "leave_start s c =
     (let s1 = stopVolumeMonitoring s;
          s2 = (case localAudioTrack s1 of
                  Some t \<Rightarrow> (sdk (sdk s1 (TrackStop (trackId t))) (TrackClose (trackId t)))
                              \<lparr>localAudioTrack := None\<rparr>
                | None \<Rightarrow> s1);
          s3 = (case localVideoTrack s2 of
                  Some t \<Rightarrow> (sdk (sdk s2 (TrackStop (trackId t))) (TrackClose (trackId t)))
                              \<lparr>localVideoTrack := None\<rparr>
                | None \<Rightarrow> s2)
      in sdk s3 (ClientLeave c))"

definition leave_resume :: "RTCHelper \<Rightarrow> unit outcome \<Rightarrow> (error + unit) \<times> RTCHelper" where
  "leave_resume s r =
     (case r of
        Resolved u \<Rightarrow> (Inr (), setConnectionState s DISCONNECTED)
      | Rejected e \<Rightarrow> (Inl e, s))"

definition leave :: "RTCHelper \<Rightarrow> unit outcome \<Rightarrow> (error + unit) \<times> RTCHelper" where
  "leave s r =
     (case client s of
        None \<Rightarrow> (Inr (), s)
      | Some c \<Rightarrow> leave_resume (leave_start s c) r)"

definition setMuted :: "RTCHelper \<Rightarrow> bool \<Rightarrow> unit outcome \<Rightarrow> (error + unit) \<times> RTCHelper" where
  "setMuted s muted r =
     (case localAudioTrack s of
        None \<Rightarrow> (Inr (), s)
      | Some t \<Rightarrow>
          (let s1 = sdk s (TrackSetEnabled (trackId t) (\<not> muted))
           in case r of
                Resolved u \<Rightarrow> (Inr (), s1\<lparr>localAudioTrack := Some (t\<lparr>enabled := \<not> muted\<rparr>)\<rparr>)
              | Rejected e \<Rightarrow> (Inl e, s1)))"

text \<open>\<open>this.localAudioTrack?.enabled === false\<close>: \<open>undefined === false\<close> is false.\<close>

definition getMuted :: "RTCHelper \<Rightarrow> bool" where
  "getMuted s = (case localAudioTrack s of None \<Rightarrow> False | Some t \<Rightarrow> enabled t = False)"

definition setVideoEnabled ::
  "RTCHelper \<Rightarrow> bool \<Rightarrow> unit outcome \<Rightarrow> (error + unit) \<times> RTCHelper" where
  "setVideoEnabled s en r =
     (case localVideoTrack s of
        None \<Rightarrow> (Inr (), s)
      | Some t \<Rightarrow>
          (let s1 = sdk s (TrackSetEnabled (trackId t) en)
           in case r of
                Resolved u \<Rightarrow> (Inr (), s1\<lparr>localVideoTrack := Some (t\<lparr>enabled := en\<rparr>)\<rparr>)
              | Rejected e \<Rightarrow> (Inl e, s1)))"

definition getVideoEnabled :: "RTCHelper \<Rightarrow> bool" where
  "getVideoEnabled s = (case localVideoTrack s of None \<Rightarrow> False | Some t \<Rightarrow> enabled t = True)"

definition getRemoteUsers :: "RTCHelper \<Rightarrow> remote_user list \<Rightarrow> user_info list" where
  "getRemoteUsers s remoteUsers =
     (case client s of
        None \<Rightarrow> []
      | Some c \<Rightarrow>
          map (\<lambda>u. RemoteUser (ru_uid u) (ru_audioTrack u) (ru_audioTrack u \<noteq> None)) remoteUsers)"

definition getConnectionState :: "RTCHelper \<Rightarrow> ConnectionState" where
  "getConnectionState s = connectionState s"

text \<open>
  What \<open>destroy\<close> does to the object itself: \<open>this.leave()\<close> is called and not awaited, so
  \<open>leave\<close> runs up to its \<open>await\<close>, then the listeners are removed, and the rest of \<open>leave\<close>
  runs when the SDK settles the promise. Clearing the static field is \<open>destroy\<close> below.
\<close>

definition destroy_this :: "RTCHelper \<Rightarrow> unit outcome \<Rightarrow> RTCHelper" where
  "destroy_this s r =
     (case client s of
        None \<Rightarrow> removeAllListeners s
      | Some c \<Rightarrow> snd (leave_resume (removeAllListeners (leave_start s c)) r))"

subsection \<open>Handlers of the SDK's callbacks\<close>

text \<open>
  \<open>user-published\<close>. \<open>r\<close> is how \<open>client.subscribe\<close> settles: resolved, it carries the user
  object as the SDK has filled it in by then. A rejection ends the handler. The handler is
  registered by \<open>init\<close> after the client is stored, and nothing stores null again, so the
  branch without a client stands for a handler that does not exist.
\<close>

definition shouldSubscribe :: "RTCHelper \<Rightarrow> remote_user \<Rightarrow> media_type \<Rightarrow> bool" where
  "shouldSubscribe s user mediaType =
     (if mediaType = Audio
      then (case shouldSubscribeAudio s of None \<Rightarrow> True | Some p \<Rightarrow> p (ru_uid user))
      else (case shouldSubscribeVideo s of None \<Rightarrow> True | Some p \<Rightarrow> p (ru_uid user)))"

definition onUserPublished ::
  "RTCHelper \<Rightarrow> remote_user \<Rightarrow> media_type \<Rightarrow> remote_user outcome \<Rightarrow> (nat \<Rightarrow> nat option)
     \<Rightarrow> RTCHelper" where
  "onUserPublished s user mediaType r receiveFrames =
     (case client s of
        None \<Rightarrow> s
      | Some c \<Rightarrow>
          if \<not> shouldSubscribe s user mediaType then s
          else
            (let s1 = sdk s (ClientSubscribe c (ru_uid user) mediaType)
             in case r of
                  Rejected e \<Rightarrow> s1
                | Resolved user' \<Rightarrow>
                    if mediaType = Audio then
                      (let s2 = (case ru_audioTrack user' of
                                   Some t \<Rightarrow> sdk s1 (RemoteTrackPlay t)
                                 | None \<Rightarrow> s1);
                           s3 = emit s2 (USER_PUBLISHED
                                   (RemoteUser (ru_uid user') (ru_audioTrack user') True) mediaType)
                       in startAudioPTSEmission s3 (ru_audioTrack user') receiveFrames)
                    else if mediaType = Video then
                      emit s1 (USER_PUBLISHED
                                 (RemoteVideoUser (ru_uid user') (ru_videoTrack user') True) mediaType)
                    else s1))"

definition onUserUnpublished :: "RTCHelper \<Rightarrow> remote_user \<Rightarrow> media_type \<Rightarrow> RTCHelper" where
  "onUserUnpublished s user mediaType =
     emit s (USER_UNPUBLISHED (RemoteUser (ru_uid user) None False) mediaType)"

definition onUserJoined :: "RTCHelper \<Rightarrow> remote_user \<Rightarrow> RTCHelper" where
  "onUserJoined s user =
     emit s (USER_JOINED (RemoteUser (ru_uid user) (ru_audioTrack user) (ru_audioTrack user \<noteq> None)))"

definition onUserLeft :: "RTCHelper \<Rightarrow> remote_user \<Rightarrow> RTCHelper" where
  "onUserLeft s user = emit s (USER_LEFT (RemoteUser (ru_uid user) None False))"

text \<open>
  \<open>connection-state-change\<close>. \<open>stateMap\<close> is an object literal, and \<open>stateMap[curState]\<close> is a
  property read: it finds the five entries of the literal, and for a name that is not among
  them it finds what every object inherits from \<open>Object.prototype\<close> before it gives
  \<open>undefined\<close>. An inherited member is a function or an object, hence truthy, and no
  \<open>ConnectionState\<close>. The values of the enum are in \<open>../type\<close>; whether they are truthy makes
  no difference, since the only falsy candidate would be replaced by itself.
\<close>

definition stateMap :: "(string \<times> ConnectionState) list" where
  "stateMap =
     [(''DISCONNECTED'', DISCONNECTED),
      (''CONNECTING'', CONNECTING),
      (''CONNECTED'', CONNECTED),
      (''RECONNECTING'', RECONNECTING),
      (''DISCONNECTING'', DISCONNECTED)]"

definition objectPrototypeMembers :: "string list" where
  "objectPrototypeMembers =
     [''constructor'', ''toString'', ''toLocaleString'', ''valueOf'', ''hasOwnProperty'',
      ''isPrototypeOf'', ''propertyIsEnumerable'', ''__proto__'', ''__defineGetter__'',
      ''__defineSetter__'', ''__lookupGetter__'', ''__lookupSetter__'']"

datatype property_read = OwnValue ConnectionState | InheritedMember | Undefined

definition stateMap_read :: "string \<Rightarrow> property_read" where
  "stateMap_read curState =
     (case map_of stateMap curState of
        Some v \<Rightarrow> OwnValue v
      | None \<Rightarrow> if curState \<in> set objectPrototypeMembers then InheritedMember else Undefined)"

text \<open>
  \<open>stateMap[curState] || CS.DISCONNECTED\<close>; \<open>None\<close> when the value is not a connection state.
\<close>

definition mappedState :: "string \<Rightarrow> ConnectionState option" where
  "mappedState curState =
     (case stateMap_read curState of
        OwnValue v \<Rightarrow> Some v
      | Undefined \<Rightarrow> Some DISCONNECTED
      | InheritedMember \<Rightarrow> None)"

definition onConnectionStateChange :: "RTCHelper \<Rightarrow> string \<Rightarrow> RTCHelper option" where
  "onConnectionStateChange s curState =
     (case mappedState curState of
        Some st \<Rightarrow> Some (setConnectionState s st)
      | None \<Rightarrow> None)"

text \<open>The SDK declares the callback's argument as one of five names.\<close>

datatype sdk_connection_state =
  SDK_DISCONNECTED | SDK_CONNECTING | SDK_RECONNECTING | SDK_CONNECTED | SDK_DISCONNECTING

fun sdk_state_name :: "sdk_connection_state \<Rightarrow> string" where
  "sdk_state_name SDK_DISCONNECTED = ''DISCONNECTED''"
| "sdk_state_name SDK_CONNECTING = ''CONNECTING''"
| "sdk_state_name SDK_RECONNECTING = ''RECONNECTING''"
| "sdk_state_name SDK_CONNECTED = ''CONNECTED''"
| "sdk_state_name SDK_DISCONNECTING = ''DISCONNECTING''"

definition onNetworkQuality :: "RTCHelper \<Rightarrow> int \<Rightarrow> int \<Rightarrow> RTCHelper" where
  "onNetworkQuality s uplink downlink = emit s (NETWORK_QUALITY uplink downlink)"

definition onStreamMessage :: "RTCHelper \<Rightarrow> int \<Rightarrow> nat list \<Rightarrow> RTCHelper" where
  "onStreamMessage s u stream = emit s (STREAM_MESSAGE u stream)"

text \<open>\<open>exception\<close> only writes to the console.\<close>

definition onException :: "RTCHelper \<Rightarrow> RTCHelper" where
  "onException s = s"

subsection \<open>Calls that overlap\<close>

text \<open>
  A call of an \<open>async\<close> method that is not awaited before the next thing happens. Its
  arguments are those of the method; how the SDK answers comes later, with \<open>settle\<close>.
  \<open>destroy\<close> is not \<open>async\<close> itself, but it calls \<open>leave\<close> and does not await it.
\<close>

datatype call =
    CallCreateAudioTrack "audio_config option"
  | CallCreateVideoTrack "video_config option"
  | CallJoin
  | CallPublish
  | CallUnpublish
  | CallLeave
  | CallSetMuted bool
  | CallSetVideoEnabled bool
  | CallDestroy
  | HandleUserPublished remote_user media_type

text \<open>What the SDK settles a promise with, by the type of the promise.\<close>

datatype answer =
    AnswerUnit "unit outcome"
  | AnswerTrack "local_track outcome"
  | AnswerUser "remote_user outcome" "nat \<Rightarrow> nat option"

definition suspend :: "RTCHelper \<Rightarrow> continuation \<Rightarrow> RTCHelper" where
  "suspend s k = s\<lparr>suspended := suspended s @ [k]\<rparr>"

text \<open>
  The method up to its \<open>await\<close>. A method that returns or throws before it gets there
  leaves nothing suspended.
\<close>

fun begin_call :: "call \<Rightarrow> RTCHelper \<Rightarrow> RTCHelper" where
  "begin_call (CallCreateAudioTrack config) s =
     suspend
       (sdk s (CreateMicrophoneAudioTrack
                 (or_default (case config of None \<Rightarrow> None | Some c \<Rightarrow> ac_encoderConfig c)
                    ''high_quality_stereo'')
                 (nullish_true (case config of None \<Rightarrow> None | Some c \<Rightarrow> ac_AEC c))
                 (nullish_true (case config of None \<Rightarrow> None | Some c \<Rightarrow> ac_ANS c))
                 (nullish_true (case config of None \<Rightarrow> None | Some c \<Rightarrow> ac_AGC c))))
       AwaitCreateAudioTrack"
| "begin_call (CallCreateVideoTrack config) s =
     suspend
       (sdk s (CreateCameraVideoTrack
                 (case config of None \<Rightarrow> None | Some c \<Rightarrow> vc_cameraId c)
                 (or_default (case config of None \<Rightarrow> None | Some c \<Rightarrow> vc_encoderConfig c)
                    ''720p_2'')))
       AwaitCreateVideoTrack"
| "begin_call CallJoin s =
     (case client s of
        None \<Rightarrow> s
      | Some c \<Rightarrow> suspend (join_start s c) AwaitJoin)"
| "begin_call CallPublish s =
     (case client s of
        None \<Rightarrow> s
      | Some c \<Rightarrow>
          (case localAudioTrack s of
             None \<Rightarrow> s
           | Some t \<Rightarrow> suspend (sdk s (ClientPublish c (trackId t))) AwaitPublish))"
| "begin_call CallUnpublish s =
     (case client s of
        None \<Rightarrow> s
      | Some c \<Rightarrow>
          (case localAudioTrack s of
             None \<Rightarrow> s
           | Some t \<Rightarrow> suspend (sdk s (ClientUnpublish c (trackId t))) AwaitUnpublish))"
| "begin_call CallLeave s =
     (case client s of
        None \<Rightarrow> s
      | Some c \<Rightarrow> suspend (leave_start s c) AwaitLeave)"
| "begin_call (CallSetMuted muted) s =
     (case localAudioTrack s of
        None \<Rightarrow> s
      | Some t \<Rightarrow>
          suspend (sdk s (TrackSetEnabled (trackId t) (\<not> muted)))
            (AwaitSetMuted (trackId t) (\<not> muted)))"
| "begin_call (CallSetVideoEnabled en) s =
     (case localVideoTrack s of
        None \<Rightarrow> s
      | Some t \<Rightarrow>
          suspend (sdk s (TrackSetEnabled (trackId t) en)) (AwaitSetVideoEnabled (trackId t) en))"
| "begin_call CallDestroy s =
     (case client s of
        None \<Rightarrow> removeAllListeners s
      | Some c \<Rightarrow> removeAllListeners (suspend (leave_start s c) AwaitLeave))"
| "begin_call (HandleUserPublished user mediaType) s =
     (case client s of
        None \<Rightarrow> s
      | Some c \<Rightarrow>
          if \<not> shouldSubscribe s user mediaType then s
          else suspend (sdk s (ClientSubscribe c (ru_uid user) mediaType))
                 (AwaitSubscribe mediaType))"

text \<open>
  The rest of the \<open>user-published\<close> handler, after \<open>await this.client!.subscribe\<close> has
  resolved with the user object \<open>user'\<close>.
\<close>

definition afterSubscribe ::
  "RTCHelper \<Rightarrow> media_type \<Rightarrow> remote_user \<Rightarrow> (nat \<Rightarrow> nat option) \<Rightarrow> RTCHelper" where
  "afterSubscribe s mediaType user' receiveFrames =
     (if mediaType = Audio then
        (let s2 = (case ru_audioTrack user' of
                     Some t \<Rightarrow> sdk s (RemoteTrackPlay t)
                   | None \<Rightarrow> s);
             s3 = emit s2 (USER_PUBLISHED
                     (RemoteUser (ru_uid user') (ru_audioTrack user') True) mediaType)
         in startAudioPTSEmission s3 (ru_audioTrack user') receiveFrames)
      else if mediaType = Video then
        emit s (USER_PUBLISHED
                  (RemoteVideoUser (ru_uid user') (ru_videoTrack user') True) mediaType)
      else s)"

text \<open>
  The method from its \<open>await\<close> on. After \<open>await track.setEnabled(v)\<close> nothing of the class
  runs; what changes is the flag of that track, if the helper still holds the track. An
  answer of another type than the promise's does not occur and changes nothing.
\<close>

definition resume :: "continuation \<Rightarrow> answer \<Rightarrow> RTCHelper \<Rightarrow> RTCHelper" where
  "resume k a s =
     (case k of
        AwaitCreateAudioTrack \<Rightarrow>
          (case a of
             AnswerTrack (Resolved t) \<Rightarrow> s\<lparr>localAudioTrack := Some t\<rparr>
           | _ \<Rightarrow> s)
      | AwaitCreateVideoTrack \<Rightarrow>
          (case a of
             AnswerTrack (Resolved t) \<Rightarrow> s\<lparr>localVideoTrack := Some t\<rparr>
           | _ \<Rightarrow> s)
      | AwaitJoin \<Rightarrow> (case a of AnswerUnit r \<Rightarrow> snd (join_resume s r) | _ \<Rightarrow> s)
      | AwaitPublish \<Rightarrow>
          (case a of AnswerUnit (Resolved u) \<Rightarrow> startVolumeMonitoring s | _ \<Rightarrow> s)
      | AwaitUnpublish \<Rightarrow>
          (case a of AnswerUnit (Resolved u) \<Rightarrow> stopVolumeMonitoring s | _ \<Rightarrow> s)
      | AwaitLeave \<Rightarrow> (case a of AnswerUnit r \<Rightarrow> snd (leave_resume s r) | _ \<Rightarrow> s)
      | AwaitSetMuted i v \<Rightarrow>
          (case a of
             AnswerUnit (Resolved u) \<Rightarrow>
               (case localAudioTrack s of
                  Some t \<Rightarrow>
                    if trackId t = i then s\<lparr>localAudioTrack := Some (t\<lparr>enabled := v\<rparr>)\<rparr> else s
                | None \<Rightarrow> s)
           | _ \<Rightarrow> s)
      | AwaitSetVideoEnabled i v \<Rightarrow>
          (case a of
             AnswerUnit (Resolved u) \<Rightarrow>
               (case localVideoTrack s of
                  Some t \<Rightarrow>
                    if trackId t = i then s\<lparr>localVideoTrack := Some (t\<lparr>enabled := v\<rparr>)\<rparr> else s
                | None \<Rightarrow> s)
           | _ \<Rightarrow> s)
      | AwaitSubscribe mediaType \<Rightarrow>
          (case a of
             AnswerUser (Resolved user') rf \<Rightarrow> afterSubscribe s mediaType user' rf
           | _ \<Rightarrow> s))"

text \<open>
  The SDK settles the promise of the \<open>k\<close>-th suspended method: the method is no longer
  suspended and its rest runs. There is nothing to settle beyond the end of the list.
\<close>

definition settle :: "nat \<Rightarrow> answer \<Rightarrow> RTCHelper \<Rightarrow> RTCHelper" where
  "settle k a s =
     (if k < length (suspended s)
      then resume (suspended s ! k) a
             (s\<lparr>suspended := take k (suspended s) @ drop (Suc k) (suspended s)\<rparr>)
      else s)"

subsection \<open>Everything that can happen to one helper\<close>

text \<open>
  The awaited calls carry the SDK's answer with them; \<open>Begin\<close> and \<open>Settle\<close> are the two
  halves of a call that overlaps with what happens in between.
\<close>

datatype op =
    Init init_config nat
  | CreateAudioTrack "audio_config option" "local_track outcome"
  | CreateVideoTrack "video_config option" "local_track outcome"
  | Join "unit outcome"
  | Publish "unit outcome"
  | Unpublish "unit outcome"
  | Leave "unit outcome"
  | SetMuted bool "unit outcome"
  | SetVideoEnabled bool "unit outcome"
  | Destroy "unit outcome"
  | On string nat
  | SdkUserPublished remote_user media_type "remote_user outcome" "nat \<Rightarrow> nat option"
  | SdkUserUnpublished remote_user media_type
  | SdkUserJoined remote_user
  | SdkUserLeft remote_user
  | SdkConnectionStateChange sdk_connection_state
  | SdkNetworkQuality int int
  | SdkStreamMessage int "nat list"
  | SdkException
  | IntervalFires nat "remote_user list" "nat \<Rightarrow> real"
  | AnimationFrame "nat \<Rightarrow> nat option"
  | Begin call
  | Settle nat answer

text \<open>
  The state after one operation; what a method returns or throws is dropped here. The five
  names of the SDK are all entries of \<open>stateMap\<close>, so the last branch of the connection-state
  case is never taken (\<open>mappedState_sdk\<close> below).
\<close>

fun step :: "op \<Rightarrow> RTCHelper \<Rightarrow> RTCHelper" where
  "step (Init config c) s = init s config c"
| "step (CreateAudioTrack config r) s = snd (createAudioTrack s config r)"
| "step (CreateVideoTrack config r) s = snd (createVideoTrack s config r)"
| "step (Join r) s = snd (join s r)"
| "step (Publish r) s = snd (publish s r)"
| "step (Unpublish r) s = snd (unpublish s r)"
| "step (Leave r) s = snd (leave s r)"
| "step (SetMuted m r) s = snd (setMuted s m r)"
| "step (SetVideoEnabled en r) s = snd (setVideoEnabled s en r)"
| "step (Destroy r) s = destroy_this s r"
| "step (On name cb) s = on s name cb"
| "step (SdkUserPublished user m r rf) s = onUserPublished s user m r rf"
| "step (SdkUserUnpublished user m) s = onUserUnpublished s user m"
| "step (SdkUserJoined user) s = onUserJoined s user"
| "step (SdkUserLeft user) s = onUserLeft s user"
| "step (SdkConnectionStateChange c) s =
     (case onConnectionStateChange s (sdk_state_name c) of Some s' \<Rightarrow> s' | None \<Rightarrow> s)"
| "step (SdkNetworkQuality up down) s = onNetworkQuality s up down"
| "step (SdkStreamMessage u stream) s = onStreamMessage s u stream"
| "step SdkException s = onException s"
| "step (IntervalFires t us level) s = intervalFires s t us level"
| "step (AnimationFrame rf) s = animationFrame s rf"
| "step (Begin c) s = begin_call c s"
| "step (Settle k a) s = settle k a s"

fun run :: "op list \<Rightarrow> RTCHelper \<Rightarrow> RTCHelper" where
  "run [] s = s"
| "run (x # xs) s = run xs (step x s)"

text \<open>A call of \<open>publish\<close>, awaited or not.\<close>

fun is_Publish :: "op \<Rightarrow> bool" where
  "is_Publish (Publish r) = True"
| "is_Publish (Begin CallPublish) = True"
| "is_Publish x = False"

text \<open>The operations in which \<open>destroy\<close> runs.\<close>

fun is_Destroy :: "op \<Rightarrow> bool" where
  "is_Destroy (Destroy r) = True"
| "is_Destroy (Begin CallDestroy) = True"
| "is_Destroy x = False"

text \<open>
  An awaited call as an overlapping one: the call to begin and the answer to settle it with.
\<close>

fun as_call :: "op \<Rightarrow> (call \<times> answer) option" where
  "as_call (CreateAudioTrack config r) = Some (CallCreateAudioTrack config, AnswerTrack r)"
| "as_call (CreateVideoTrack config r) = Some (CallCreateVideoTrack config, AnswerTrack r)"
| "as_call (Join r) = Some (CallJoin, AnswerUnit r)"
| "as_call (Publish r) = Some (CallPublish, AnswerUnit r)"
| "as_call (Unpublish r) = Some (CallUnpublish, AnswerUnit r)"
| "as_call (Leave r) = Some (CallLeave, AnswerUnit r)"
| "as_call (SetMuted m r) = Some (CallSetMuted m, AnswerUnit r)"
| "as_call (SetVideoEnabled en r) = Some (CallSetVideoEnabled en, AnswerUnit r)"
| "as_call (Destroy r) = Some (CallDestroy, AnswerUnit r)"
| "as_call (SdkUserPublished user m r rf) = Some (HandleUserPublished user m, AnswerUser r rf)"
| "as_call x = None"

fun is_VOLUME_INDICATOR :: "event \<Rightarrow> bool" where
  "is_VOLUME_INDICATOR (VOLUME_INDICATOR v) = True"
| "is_VOLUME_INDICATOR e = False"

subsection \<open>The static field and the singleton accessor\<close>

text \<open>
  Objects are told apart by reference, so the helpers live in a store and \<open>new RTCHelper()\<close>
  takes the next free reference. \<open>static_instance\<close> is \<open>RTCHelper.instance\<close>.
\<close>

record world =
  static_instance :: "nat option"
  heap :: "nat \<Rightarrow> RTCHelper option"
  nextRef :: nat

definition new_world :: world where
  "new_world = \<lparr> static_instance = None, heap = Map.empty, nextRef = 0 \<rparr>"

definition getInstance :: "world \<Rightarrow> nat \<times> world" where
  "getInstance w =
     (case static_instance w of
        None \<Rightarrow>
          (let a = nextRef w
           in (a, w\<lparr>heap := (heap w)(a \<mapsto> new_RTCHelper), nextRef := Suc a,
                    static_instance := Some a\<rparr>))
      | Some a \<Rightarrow> (a, w))"

text \<open>
  \<open>destroy\<close> on the object \<open>this\<close>. A method is called through a reference, so the object
  exists; for a reference that was never handed out nothing happens.
\<close>

definition destroy :: "world \<Rightarrow> nat \<Rightarrow> unit outcome \<Rightarrow> world" where
  "destroy w this r =
     (case heap w this of
        None \<Rightarrow> w
      | Some s \<Rightarrow> w\<lparr>heap := (heap w)(this \<mapsto> destroy_this s r), static_instance := None\<rparr>)"

text \<open>
  What a program does: it asks for the instance, or something happens to an object it holds
  a reference to. Whenever \<open>destroy\<close> runs on an object, awaited through its \<open>leave\<close> or
  not, the static field is cleared as well (\<open>perform_Destroy\<close>).
\<close>

datatype action = GetInstance | Call nat op

fun perform :: "action \<Rightarrow> world \<Rightarrow> world" where
  "perform GetInstance w = snd (getInstance w)"
| "perform (Call this x) w =
     (case heap w this of
        None \<Rightarrow> w
      | Some s \<Rightarrow>
          w\<lparr>heap := (heap w)(this \<mapsto> step x s),
            static_instance := (if is_Destroy x then None else static_instance w)\<rparr>)"

fun perform_all :: "action list \<Rightarrow> world \<Rightarrow> world" where
  "perform_all [] w = w"
| "perform_all (x # xs) w = perform_all xs (perform x w)"

fun is_destroy :: "action \<Rightarrow> bool" where
  "is_destroy (Call this x) = is_Destroy x"
| "is_destroy GetInstance = False"

fun is_getInstance :: "action \<Rightarrow> bool" where
  "is_getInstance GetInstance = True"
| "is_getInstance x = False"

subsection \<open>Notions used in the statements\<close>

text \<open>The \<open>AUDIO_PTS\<close> events one frame emits for a list of pending callbacks.\<close>

definition pts_events :: "(nat \<Rightarrow> nat option) \<Rightarrow> nat option list \<Rightarrow> event list" where
  "pts_events rf ts =
     concat (map (\<lambda>a. case a of
                         Some t \<Rightarrow> [AUDIO_PTS (case rf t of Some n \<Rightarrow> n | None \<Rightarrow> 0)]
                       | None \<Rightarrow> []) ts)"

text \<open>
  What holds of the volume timer in every state a helper reaches, overlapping calls
  included: the helper's timers are exactly the one \<open>volumeIntervalRef\<close> holds, and a timer
  runs, or a \<open>publish\<close> is suspended that may start one, only when there is a client.
\<close>

definition timer_inv :: "RTCHelper \<Rightarrow> bool" where
  "timer_inv s =
     ((case volumeIntervalRef s of
         None \<Rightarrow> timers s = {}
       | Some t \<Rightarrow> timers s = {t} \<and> client s \<noteq> None) \<and>
      (AwaitPublish \<in> set (suspended s) \<longrightarrow> client s \<noteq> None))"

text \<open>
  No volume timer runs and no suspended \<open>publish\<close> is left that could start one.
\<close>

definition idle :: "RTCHelper \<Rightarrow> bool" where
  "idle s = (volumeIntervalRef s = None \<and> timers s = {} \<and> AwaitPublish \<notin> set (suspended s))"

text \<open>
  What holds of the store in every world: references are handed out in order, and the
  static field refers to an object that exists.
\<close>

definition world_inv :: "world \<Rightarrow> bool" where
  "world_inv w =
     ((\<forall>a. heap w a \<noteq> None \<longrightarrow> a < nextRef w) \<and>
      (case static_instance w of None \<Rightarrow> True | Some a \<Rightarrow> heap w a \<noteq> None))"

text \<open>Concrete sessions, each the result of calling the methods on a new helper.\<close>

definition example_config :: init_config where
  "example_config =
     \<lparr> cfg_appId = ''app'', cfg_channel = ''room'', cfg_token = None, cfg_uid = 7,
       cfg_shouldSubscribeAudio = None, cfg_shouldSubscribeVideo = None \<rparr>"

definition filtering_config :: init_config where
  "filtering_config =
     \<lparr> cfg_appId = ''app'', cfg_channel = ''room'', cfg_token = None, cfg_uid = 7,
       cfg_shouldSubscribeAudio = Some (\<lambda>u. u \<noteq> 42),
       cfg_shouldSubscribeVideo = Some (\<lambda>u. False) \<rparr>"

definition example_mic :: local_track where
  "example_mic = \<lparr> trackId = 1, enabled = True \<rparr>"

definition example_camera :: local_track where
  "example_camera = \<lparr> trackId = 2, enabled = True \<rparr>"

definition example_user :: remote_user where
  "example_user = \<lparr> ru_uid = 42, ru_audioTrack = Some 5, ru_videoTrack = Some 6 \<rparr>"

definition initialized_session :: RTCHelper where
  "initialized_session = run [Init example_config 0] new_RTCHelper"

definition filtering_session :: RTCHelper where
  "filtering_session = run [Init filtering_config 0] new_RTCHelper"

definition ready_session :: RTCHelper where
  "ready_session =
     run [Init example_config 0, CreateAudioTrack None (Resolved example_mic)] new_RTCHelper"

definition published_session :: RTCHelper where
  "published_session =
     run [Init example_config 0,
          CreateAudioTrack None (Resolved example_mic),
          Publish (Resolved ())] new_RTCHelper"

definition connected_session :: RTCHelper where
  "connected_session =
     run [Init example_config 0,
          CreateAudioTrack None (Resolved example_mic),
          CreateVideoTrack None (Resolved example_camera),
          Join (Resolved ())] new_RTCHelper"

text \<open>
  A session in which \<open>leave\<close> was called and awaited while a \<open>publish\<close> was suspended, and
  the SDK resolved the \<open>publish\<close> afterwards.
\<close>

definition raced_session :: RTCHelper where
  "raced_session =
     run [Init example_config 0,
          CreateAudioTrack None (Resolved example_mic),
          Begin CallPublish,
          Leave (Resolved ()),
          Settle 0 (AnswerUnit (Resolved ()))] new_RTCHelper"

text \<open>
  A session in which \<open>leave\<close> and \<open>publish\<close> were both suspended, and the SDK resolved the
  \<open>publish\<close> before the \<open>leave\<close>.
\<close>

definition overlapped_leave_session :: RTCHelper where
  "overlapped_leave_session =
     run [Init example_config 0,
          CreateAudioTrack None (Resolved example_mic),
          Join (Resolved ()),
          Begin CallPublish,
          Begin CallLeave,
          Settle 0 (AnswerUnit (Resolved ())),
          Settle 0 (AnswerUnit (Resolved ()))] new_RTCHelper"

section \<open>Auxiliary facts\<close>

subsection \<open>What each private method changes\<close>

lemma emit_fields [simp]:
  "client (emit s e) = client s"
  "localAudioTrack (emit s e) = localAudioTrack s"
  "localVideoTrack (emit s e) = localVideoTrack s"
  "connectionState (emit s e) = connectionState s"
  "volumeIntervalRef (emit s e) = volumeIntervalRef s"
  "timers (emit s e) = timers s"
  "frameCallbacks (emit s e) = frameCallbacks s"
  "suspended (emit s e) = suspended s"
  "sdkCalls (emit s e) = sdkCalls s"
  "emitted (emit s e) = emitted s @ [e]"
  by (simp_all add: emit_def)

lemma sdk_fields [simp]:
  "client (sdk s c) = client s"
  "localAudioTrack (sdk s c) = localAudioTrack s"
  "localVideoTrack (sdk s c) = localVideoTrack s"
  "connectionState (sdk s c) = connectionState s"
  "volumeIntervalRef (sdk s c) = volumeIntervalRef s"
  "timers (sdk s c) = timers s"
  "frameCallbacks (sdk s c) = frameCallbacks s"
  "suspended (sdk s c) = suspended s"
  "sdkCalls (sdk s c) = sdkCalls s @ [c]"
  "emitted (sdk s c) = emitted s"
  by (simp_all add: sdk_def)

lemma setConnectionState_fields [simp]:
  "client (setConnectionState s st) = client s"
  "localAudioTrack (setConnectionState s st) = localAudioTrack s"
  "localVideoTrack (setConnectionState s st) = localVideoTrack s"
  "connectionState (setConnectionState s st) = st"
  "volumeIntervalRef (setConnectionState s st) = volumeIntervalRef s"
  "timers (setConnectionState s st) = timers s"
  "frameCallbacks (setConnectionState s st) = frameCallbacks s"
  "suspended (setConnectionState s st) = suspended s"
  "sdkCalls (setConnectionState s st) = sdkCalls s"
  by (simp_all add: setConnectionState_def)

lemma setConnectionState_emitted:
  "emitted (setConnectionState s st) =
     (if connectionState s = st then emitted s else emitted s @ [CONNECTION_STATE_CHANGED st])"
  by (simp add: setConnectionState_def)

lemma stopVolumeMonitoring_fields [simp]:
  "client (stopVolumeMonitoring s) = client s"
  "localAudioTrack (stopVolumeMonitoring s) = localAudioTrack s"
  "localVideoTrack (stopVolumeMonitoring s) = localVideoTrack s"
  "connectionState (stopVolumeMonitoring s) = connectionState s"
  "volumeIntervalRef (stopVolumeMonitoring s) = None"
  "frameCallbacks (stopVolumeMonitoring s) = frameCallbacks s"
  "suspended (stopVolumeMonitoring s) = suspended s"
  "sdkCalls (stopVolumeMonitoring s) = sdkCalls s"
  "emitted (stopVolumeMonitoring s) = emitted s"
  by (simp_all add: stopVolumeMonitoring_def split: option.splits)

lemma stopVolumeMonitoring_timers:
  "timers (stopVolumeMonitoring s) =
     (case volumeIntervalRef s of Some t \<Rightarrow> timers s - {t} | None \<Rightarrow> timers s)"
  by (simp add: stopVolumeMonitoring_def split: option.splits)

lemma startVolumeMonitoring_fields [simp]:
  "client (startVolumeMonitoring s) = client s"
  "localAudioTrack (startVolumeMonitoring s) = localAudioTrack s"
  "localVideoTrack (startVolumeMonitoring s) = localVideoTrack s"
  "connectionState (startVolumeMonitoring s) = connectionState s"
  "frameCallbacks (startVolumeMonitoring s) = frameCallbacks s"
  "suspended (startVolumeMonitoring s) = suspended s"
  "sdkCalls (startVolumeMonitoring s) = sdkCalls s"
  "emitted (startVolumeMonitoring s) = emitted s"
  by (simp_all add: startVolumeMonitoring_def split: option.splits)

lemma startVolumeMonitoring_timer:
  "volumeIntervalRef (startVolumeMonitoring s) =
     (case volumeIntervalRef s of Some t \<Rightarrow> Some t | None \<Rightarrow> Some (nextTimer s))"
  "timers (startVolumeMonitoring s) =
     (case volumeIntervalRef s of Some t \<Rightarrow> timers s | None \<Rightarrow> insert (nextTimer s) (timers s))"
  by (simp_all add: startVolumeMonitoring_def split: option.splits)

lemma emitPTS_fields [simp]:
  "client (emitPTS s a rf) = client s"
  "localAudioTrack (emitPTS s a rf) = localAudioTrack s"
  "localVideoTrack (emitPTS s a rf) = localVideoTrack s"
  "connectionState (emitPTS s a rf) = connectionState s"
  "volumeIntervalRef (emitPTS s a rf) = volumeIntervalRef s"
  "timers (emitPTS s a rf) = timers s"
  "sdkCalls (emitPTS s a rf) = sdkCalls s"
  "frameCallbacks (emitPTS s a rf) = frameCallbacks s @ [a]"
  "suspended (emitPTS s a rf) = suspended s"
  by (simp_all add: emitPTS_def Let_def split: option.splits)

lemma emitPTS_emitted:
  "emitted (emitPTS s a rf) =
     emitted s @ (case a of Some t \<Rightarrow> [AUDIO_PTS (case rf t of Some n \<Rightarrow> n | None \<Rightarrow> 0)] | None \<Rightarrow> [])"
  by (simp add: emitPTS_def Let_def split: option.splits)

lemma frames_fields [simp]:
  "client (foldl (\<lambda>s' t. emitPTS s' t rf) s ts) = client s"
  "localAudioTrack (foldl (\<lambda>s' t. emitPTS s' t rf) s ts) = localAudioTrack s"
  "localVideoTrack (foldl (\<lambda>s' t. emitPTS s' t rf) s ts) = localVideoTrack s"
  "connectionState (foldl (\<lambda>s' t. emitPTS s' t rf) s ts) = connectionState s"
  "volumeIntervalRef (foldl (\<lambda>s' t. emitPTS s' t rf) s ts) = volumeIntervalRef s"
  "timers (foldl (\<lambda>s' t. emitPTS s' t rf) s ts) = timers s"
  "sdkCalls (foldl (\<lambda>s' t. emitPTS s' t rf) s ts) = sdkCalls s"
  "frameCallbacks (foldl (\<lambda>s' t. emitPTS s' t rf) s ts) = frameCallbacks s @ ts"
  "suspended (foldl (\<lambda>s' t. emitPTS s' t rf) s ts) = suspended s"
  by (induction ts arbitrary: s; simp)+

lemma frames_emitted:
  "emitted (foldl (\<lambda>s' t. emitPTS s' t rf) s ts) = emitted s @ pts_events rf ts"
  by (induction ts arbitrary: s) (simp_all add: emitPTS_emitted pts_events_def)

lemma animationFrame_fields [simp]:
  "client (animationFrame s rf) = client s"
  "localAudioTrack (animationFrame s rf) = localAudioTrack s"
  "localVideoTrack (animationFrame s rf) = localVideoTrack s"
  "connectionState (animationFrame s rf) = connectionState s"
  "volumeIntervalRef (animationFrame s rf) = volumeIntervalRef s"
  "timers (animationFrame s rf) = timers s"
  "sdkCalls (animationFrame s rf) = sdkCalls s"
  "frameCallbacks (animationFrame s rf) = frameCallbacks s"
  "suspended (animationFrame s rf) = suspended s"
  by (simp_all add: animationFrame_def)

lemma animationFrame_emitted:
  "emitted (animationFrame s rf) = emitted s @ pts_events rf (frameCallbacks s)"
  by (simp add: animationFrame_def frames_emitted)

lemma setupEventListeners_fields [simp]:
  "client (setupEventListeners s) = client s"
  "localAudioTrack (setupEventListeners s) = localAudioTrack s"
  "localVideoTrack (setupEventListeners s) = localVideoTrack s"
  "connectionState (setupEventListeners s) = connectionState s"
  "volumeIntervalRef (setupEventListeners s) = volumeIntervalRef s"
  "timers (setupEventListeners s) = timers s"
  "frameCallbacks (setupEventListeners s) = frameCallbacks s"
  "suspended (setupEventListeners s) = suspended s"
  "emitted (setupEventListeners s) = emitted s"
  by (simp_all add: setupEventListeners_def split: option.splits)

lemma suspend_fields [simp]:
  "client (suspend s k) = client s"
  "localAudioTrack (suspend s k) = localAudioTrack s"
  "localVideoTrack (suspend s k) = localVideoTrack s"
  "connectionState (suspend s k) = connectionState s"
  "volumeIntervalRef (suspend s k) = volumeIntervalRef s"
  "timers (suspend s k) = timers s"
  "frameCallbacks (suspend s k) = frameCallbacks s"
  "sdkCalls (suspend s k) = sdkCalls s"
  "emitted (suspend s k) = emitted s"
  "suspended (suspend s k) = suspended s @ [k]"
  by (simp_all add: suspend_def)

lemma removeAllListeners_fields [simp]:
  "client (removeAllListeners s) = client s"
  "localAudioTrack (removeAllListeners s) = localAudioTrack s"
  "localVideoTrack (removeAllListeners s) = localVideoTrack s"
  "connectionState (removeAllListeners s) = connectionState s"
  "volumeIntervalRef (removeAllListeners s) = volumeIntervalRef s"
  "timers (removeAllListeners s) = timers s"
  "frameCallbacks (removeAllListeners s) = frameCallbacks s"
  "sdkCalls (removeAllListeners s) = sdkCalls s"
  "emitted (removeAllListeners s) = emitted s"
  "suspended (removeAllListeners s) = suspended s"
  by (simp_all add: removeAllListeners_def)

lemma join_start_fields [simp]:
  "client (join_start s c) = client s"
  "localAudioTrack (join_start s c) = localAudioTrack s"
  "volumeIntervalRef (join_start s c) = volumeIntervalRef s"
  "timers (join_start s c) = timers s"
  "frameCallbacks (join_start s c) = frameCallbacks s"
  "suspended (join_start s c) = suspended s"
  by (simp_all add: join_start_def)

lemma leave_start_fields [simp]:
  "client (leave_start s c) = client s"
  "localAudioTrack (leave_start s c) = None"
  "localVideoTrack (leave_start s c) = None"
  "connectionState (leave_start s c) = connectionState s"
  "volumeIntervalRef (leave_start s c) = None"
  "frameCallbacks (leave_start s c) = frameCallbacks s"
  "suspended (leave_start s c) = suspended s"
  "emitted (leave_start s c) = emitted s"
  by (simp_all add: leave_start_def Let_def split: option.splits)

lemma leave_start_timers:
  "timers (leave_start s c) =
     (case volumeIntervalRef s of Some t \<Rightarrow> timers s - {t} | None \<Rightarrow> timers s)"
  by (simp add: leave_start_def Let_def stopVolumeMonitoring_timers split: option.splits)

lemma afterSubscribe_fields [simp]:
  "client (afterSubscribe s m u rf) = client s"
  "localAudioTrack (afterSubscribe s m u rf) = localAudioTrack s"
  "volumeIntervalRef (afterSubscribe s m u rf) = volumeIntervalRef s"
  "timers (afterSubscribe s m u rf) = timers s"
  "suspended (afterSubscribe s m u rf) = suspended s"
  by (simp_all add: afterSubscribe_def startAudioPTSEmission_def Let_def split: option.splits)

lemma afterSubscribe_frameCallbacks:
  "\<exists>zs. frameCallbacks (afterSubscribe s m u rf) = frameCallbacks s @ zs"
  by (simp add: afterSubscribe_def startAudioPTSEmission_def Let_def split: option.splits)

lemma afterSubscribe_no_volume:
  "filter is_VOLUME_INDICATOR (emitted (afterSubscribe s m u rf)) =
   filter is_VOLUME_INDICATOR (emitted s)"
  by (simp add: afterSubscribe_def startAudioPTSEmission_def emitPTS_emitted Let_def
           split: option.splits)

lemma join_resume_fields [simp]:
  "client (snd (join_resume s r)) = client s"
  "localAudioTrack (snd (join_resume s r)) = localAudioTrack s"
  "volumeIntervalRef (snd (join_resume s r)) = volumeIntervalRef s"
  "timers (snd (join_resume s r)) = timers s"
  "frameCallbacks (snd (join_resume s r)) = frameCallbacks s"
  "suspended (snd (join_resume s r)) = suspended s"
  by (simp_all add: join_resume_def split: outcome.splits)

lemma leave_resume_fields [simp]:
  "client (snd (leave_resume s r)) = client s"
  "localAudioTrack (snd (leave_resume s r)) = localAudioTrack s"
  "volumeIntervalRef (snd (leave_resume s r)) = volumeIntervalRef s"
  "timers (snd (leave_resume s r)) = timers s"
  "frameCallbacks (snd (leave_resume s r)) = frameCallbacks s"
  "suspended (snd (leave_resume s r)) = suspended s"
  by (simp_all add: leave_resume_def split: outcome.splits)

lemma resume_suspended [simp]: "suspended (resume k a s) = suspended s"
  by (simp add: resume_def
           split: continuation.splits answer.splits outcome.splits option.splits)

lemma resume_client [simp]: "client (resume k a s) = client s"
  by (simp add: resume_def
           split: continuation.splits answer.splits outcome.splits option.splits)

lemma begin_call_client [simp]: "client (begin_call c s) = client s"
  by (cases c) (simp_all split: option.splits)

subsection \<open>An awaited call is a call begun and settled at once\<close>

lemma settle_none:
  "suspended s' = suspended s \<Longrightarrow> settle (length (suspended s)) a s' = s'"
  by (simp add: settle_def)

lemma settle_suspend:
  assumes "suspended s0 = suspended s"
  shows "settle (length (suspended s)) a (suspend s0 k) = resume k a s0"
proof -
  have same: "s0\<lparr>suspended := suspended s\<rparr> = s0"
    unfolding assms [symmetric] by simp
  show ?thesis
    by (simp add: settle_def suspend_def assms same)
qed

lemma awaited_call:
  assumes "as_call x = Some (c, a)"
  shows "step x s = settle (length (suspended s)) a (begin_call c s)"
proof (cases x)
  case (CreateAudioTrack config r)
  with assms show ?thesis
    by (auto simp: createAudioTrack_def Let_def settle_suspend resume_def split: outcome.splits)
next
  case (CreateVideoTrack config r)
  with assms show ?thesis
    by (auto simp: createVideoTrack_def Let_def settle_suspend resume_def split: outcome.splits)
next
  case (Join r)
  with assms show ?thesis
    by (auto simp: join_def settle_suspend settle_none resume_def split: option.splits)
next
  case (Publish r)
  with assms show ?thesis
    by (auto simp: publish_def Let_def settle_suspend settle_none resume_def
             split: option.splits outcome.splits)
next
  case (Unpublish r)
  with assms show ?thesis
    by (auto simp: unpublish_def Let_def settle_suspend settle_none resume_def
             split: option.splits outcome.splits)
next
  case (Leave r)
  with assms show ?thesis
    by (auto simp: leave_def settle_suspend settle_none resume_def split: option.splits)
next
  case (SetMuted m r)
  with assms show ?thesis
    by (auto simp: setMuted_def Let_def settle_suspend settle_none resume_def
             split: option.splits outcome.splits)
next
  case (SetVideoEnabled en r)
  with assms show ?thesis
    by (auto simp: setVideoEnabled_def Let_def settle_suspend settle_none resume_def
             split: option.splits outcome.splits)
next
  case (Destroy r)
  have "removeAllListeners (suspend s0 k) = suspend (removeAllListeners s0) k" for s0 k
    by (simp add: removeAllListeners_def suspend_def)
  with Destroy assms show ?thesis
    by (auto simp: destroy_this_def settle_suspend settle_none resume_def split: option.splits)
next
  case (SdkUserPublished user m r rf)
  with assms show ?thesis
    by (auto simp: onUserPublished_def afterSubscribe_def Let_def settle_suspend settle_none
                   resume_def
             split: option.splits outcome.splits)
qed (use assms in simp_all)

subsection \<open>A volume timer runs only while there is a client\<close>

lemma timer_inv_new: "timer_inv new_RTCHelper"
  by (simp add: timer_inv_def new_RTCHelper_def)

lemma timer_inv_begin: "timer_inv s \<Longrightarrow> timer_inv (begin_call c s)"
  by (cases c)
     (auto simp: timer_inv_def leave_start_timers split: option.splits)

lemma timer_inv_resume:
  assumes "timer_inv s" and "k = AwaitPublish \<longrightarrow> client s \<noteq> None"
  shows "timer_inv (resume k a s)"
proof -
  have sus: "suspended (resume k a s) = suspended s" by simp
  have cl: "client (resume k a s) = client s" by simp
  have "case volumeIntervalRef (resume k a s) of
          None \<Rightarrow> timers (resume k a s) = {}
        | Some t \<Rightarrow> timers (resume k a s) = {t} \<and> client s \<noteq> None"
    using assms
    by (auto simp: timer_inv_def resume_def startVolumeMonitoring_timer
                   stopVolumeMonitoring_timers
             split: continuation.splits answer.splits outcome.splits option.splits)
  with assms(1) sus cl show ?thesis
    by (auto simp: timer_inv_def split: option.splits)
qed

lemma timer_inv_settle: "timer_inv s \<Longrightarrow> timer_inv (settle k a s)"
proof (cases "k < length (suspended s)")
  case False
  assume "timer_inv s"
  with False show ?thesis by (simp add: settle_def)
next
  case True
  assume inv: "timer_inv s"
  let ?s = "s\<lparr>suspended := take k (suspended s) @ drop (Suc k) (suspended s)\<rparr>"
  from inv have a: "timer_inv ?s"
    by (auto simp: timer_inv_def split: option.splits dest: in_set_takeD in_set_dropD)
  have b: "suspended s ! k = AwaitPublish \<longrightarrow> client ?s \<noteq> None"
  proof
    assume "suspended s ! k = AwaitPublish"
    with True have "AwaitPublish \<in> set (suspended s)" by (metis nth_mem)
    with inv show "client ?s \<noteq> None" by (simp add: timer_inv_def)
  qed
  from timer_inv_resume [OF a b] True show ?thesis by (simp add: settle_def)
qed

lemma timer_inv_step: "timer_inv s \<Longrightarrow> timer_inv (step x s)"
proof (cases "as_call x")
  case (Some ca)
  assume inv: "timer_inv s"
  obtain c a where "as_call x = Some (c, a)" using Some by (cases ca) simp
  from awaited_call [OF this] have "step x s = settle (length (suspended s)) a (begin_call c s)" .
  with inv show ?thesis by (simp add: timer_inv_begin timer_inv_settle)
next
  case None
  assume inv: "timer_inv s"
  from None inv show ?thesis
    by (cases x)
       (auto simp: timer_inv_begin timer_inv_settle,
        auto simp: timer_inv_def init_def on_def onUserUnpublished_def onUserJoined_def
                   onUserLeft_def onConnectionStateChange_def onNetworkQuality_def
                   onStreamMessage_def onException_def intervalFires_def volumeCallback_def
                   Let_def
             split: option.splits)
qed

lemma timer_inv_run: "timer_inv s \<Longrightarrow> timer_inv (run xs s)"
  by (induction xs arbitrary: s) (simp_all add: timer_inv_step)

lemma timer_inv_reachable: "timer_inv (run xs new_RTCHelper)"
  by (simp add: timer_inv_run timer_inv_new)

subsection \<open>Concrete sessions\<close>

lemmas method_defs =
  init_def setupEventListeners_def createAudioTrack_def createVideoTrack_def join_def
  join_start_def join_resume_def publish_def unpublish_def leave_def leave_start_def
  leave_resume_def setMuted_def setVideoEnabled_def destroy_this_def

lemmas primitive_defs =
  emit_def sdk_def setConnectionState_def startVolumeMonitoring_def stopVolumeMonitoring_def
  on_def removeAllListeners_def or_default_def nullish_true_def

lemmas example_defs =
  example_config_def example_mic_def example_camera_def new_RTCHelper_def

lemma connected_session_fields:
  "client connected_session = Some 0"
  "connectionState connected_session = CONNECTED"
  "localAudioTrack connected_session = Some example_mic"
  "localVideoTrack connected_session = Some example_camera"
  "volumeIntervalRef connected_session = None"
  by (simp_all add: connected_session_def method_defs primitive_defs example_defs Let_def)

lemma initialized_session_fields:
  "client initialized_session = Some 0"
  "connectionState initialized_session = DISCONNECTED"
  "emitted initialized_session = []"
  "localAudioTrack initialized_session = None"
  by (simp_all add: initialized_session_def method_defs primitive_defs example_defs Let_def)

lemma published_session_fields:
  "client published_session = Some 0"
  "localAudioTrack published_session = Some example_mic"
  "volumeIntervalRef published_session = Some 1"
  "timers published_session = {1}"
  "emitted published_session = []"
  by (simp_all add: published_session_def method_defs primitive_defs example_defs Let_def)

lemma ready_session_fields:
  "client ready_session = Some 0"
  "localAudioTrack ready_session = Some example_mic"
  "volumeIntervalRef ready_session = None"
  "timers ready_session = {}"
  "nextTimer ready_session = 1"
  by (simp_all add: ready_session_def method_defs primitive_defs example_defs Let_def)

lemma filtering_session_fields:
  "client filtering_session = Some 0"
  "shouldSubscribeAudio filtering_session = Some (\<lambda>u. u \<noteq> 42)"
  "shouldSubscribeVideo filtering_session = Some (\<lambda>u. False)"
  by (simp_all add: filtering_session_def filtering_config_def method_defs primitive_defs
                    example_defs Let_def)

lemma initialized_session_predicates:
  "shouldSubscribeAudio initialized_session = None"
  "shouldSubscribeVideo initialized_session = None"
  "sdkCalls initialized_session =
     map (ClientOn 0)
       [''user-published'', ''user-unpublished'', ''user-joined'', ''user-left'',
        ''connection-state-change'', ''network-quality'', ''stream-message'', ''exception'']"
  by (simp_all add: initialized_session_def method_defs primitive_defs example_defs Let_def)

subsection \<open>After the timer has been stopped\<close>

lemma unpublish_returned_any:
  assumes "timer_inv s" and "localAudioTrack s \<noteq> None \<or> volumeIntervalRef s = None"
    and "unpublish s r = (Inr (), s')"
  shows "volumeIntervalRef s' = None \<and> timers s' = {}"
  using assms
  by (auto simp: timer_inv_def unpublish_def Let_def stopVolumeMonitoring_timers
           split: option.splits outcome.splits)

lemma leave_settled:
  assumes "timer_inv s" and "leave s r = (res, s')"
  shows "volumeIntervalRef s' = None \<and> timers s' = {}"
  using assms
  by (auto simp: timer_inv_def leave_def leave_resume_def leave_start_timers
           split: option.splits outcome.splits)

lemma unpublish_suspended: "suspended (snd (unpublish s r)) = suspended s"
  by (simp add: unpublish_def Let_def split: option.splits outcome.splits)

lemma leave_suspended: "suspended (snd (leave s r)) = suspended s"
  by (simp add: leave_def split: option.splits)

lemma pts_events_no_volume: "filter is_VOLUME_INDICATOR (pts_events rf ts) = []"
  by (induction ts) (simp_all add: pts_events_def split: option.splits)

lemma intervalFires_idle: "timers s = {} \<Longrightarrow> intervalFires s t us level = s"
  by (simp add: intervalFires_def)

lemma idle_begin:
  assumes "idle s" and "c \<noteq> CallPublish"
  shows "idle (begin_call c s) \<and>
         filter is_VOLUME_INDICATOR (emitted (begin_call c s)) =
         filter is_VOLUME_INDICATOR (emitted s)"
  using assms
  by (cases c)
     (auto simp: idle_def leave_start_timers join_start_def setConnectionState_emitted
           split: option.splits)

lemma idle_resume:
  assumes "idle s" and "k \<noteq> AwaitPublish"
  shows "idle (resume k a s) \<and>
         filter is_VOLUME_INDICATOR (emitted (resume k a s)) =
         filter is_VOLUME_INDICATOR (emitted s)"
proof -
  have "volumeIntervalRef (resume k a s) = None \<and> timers (resume k a s) = {} \<and>
        filter is_VOLUME_INDICATOR (emitted (resume k a s)) =
        filter is_VOLUME_INDICATOR (emitted s)"
    using assms
    by (auto simp: idle_def resume_def stopVolumeMonitoring_timers join_resume_def
                   leave_resume_def setConnectionState_emitted afterSubscribe_no_volume
             split: continuation.splits answer.splits outcome.splits option.splits)
  with assms(1) show ?thesis by (simp add: idle_def)
qed

lemma idle_settle:
  assumes "idle s"
  shows "idle (settle k a s) \<and>
         filter is_VOLUME_INDICATOR (emitted (settle k a s)) =
         filter is_VOLUME_INDICATOR (emitted s)"
proof (cases "k < length (suspended s)")
  case False
  with assms show ?thesis by (simp add: settle_def)
next
  case True
  let ?s = "s\<lparr>suspended := take k (suspended s) @ drop (Suc k) (suspended s)\<rparr>"
  from assms have a: "idle ?s"
    by (auto simp: idle_def dest: in_set_takeD in_set_dropD)
  from True have "suspended s ! k \<in> set (suspended s)" by (rule nth_mem)
  with assms have b: "suspended s ! k \<noteq> AwaitPublish" by (auto simp: idle_def)
  from idle_resume [OF a b, of a] True show ?thesis by (simp add: settle_def)
qed

lemma as_call_not_publish:
  "as_call x = Some (c, a) \<Longrightarrow> \<not> is_Publish x \<Longrightarrow> c \<noteq> CallPublish"
  by (cases x) auto

lemma idle_step:
  assumes "idle s" and "\<not> is_Publish x"
  shows "idle (step x s) \<and>
         filter is_VOLUME_INDICATOR (emitted (step x s)) = filter is_VOLUME_INDICATOR (emitted s)"
proof (cases "as_call x")
  case (Some ca)
  obtain c a where ca: "as_call x = Some (c, a)" using Some by (cases ca) simp
  from as_call_not_publish [OF ca assms(2)] have np: "c \<noteq> CallPublish" .
  from idle_begin [OF assms(1) np] have b: "idle (begin_call c s)"
    and e: "filter is_VOLUME_INDICATOR (emitted (begin_call c s)) =
            filter is_VOLUME_INDICATOR (emitted s)"
    by simp_all
  from idle_settle [OF b, of "length (suspended s)" a] e awaited_call [OF ca, of s]
  show ?thesis by simp
next
  case None
  show ?thesis
  proof (cases x)
    case (Begin c)
    with assms(2) have "c \<noteq> CallPublish" by (cases c) simp_all
    from idle_begin [OF assms(1) this] Begin show ?thesis by simp
  next
    case (Settle k a)
    from idle_settle [OF assms(1), of k a] Settle show ?thesis by simp
  next
    case (AnimationFrame rf)
    with assms(1) show ?thesis
      by (simp add: idle_def animationFrame_emitted pts_events_no_volume)
  qed (use None assms(1) in \<open>auto simp: idle_def init_def on_def onUserUnpublished_def
          onUserJoined_def onUserLeft_def onConnectionStateChange_def onNetworkQuality_def
          onStreamMessage_def onException_def intervalFires_def setConnectionState_emitted
          split: option.splits\<close>)
qed

lemma idle_run:
  assumes "idle s" and "list_all (\<lambda>x. \<not> is_Publish x) xs"
  shows "idle (run xs s) \<and>
         filter is_VOLUME_INDICATOR (emitted (run xs s)) = filter is_VOLUME_INDICATOR (emitted s)"
  using assms
proof (induction xs arbitrary: s)
  case Nil
  then show ?case by simp
next
  case (Cons x xs)
  from Cons.prems have nx: "\<not> is_Publish x" and rest: "list_all (\<lambda>x. \<not> is_Publish x) xs"
    by simp_all
  from idle_step [OF Cons.prems(1) nx]
  have a: "idle (step x s)"
    and c: "filter is_VOLUME_INDICATOR (emitted (step x s)) = filter is_VOLUME_INDICATOR (emitted s)"
    by simp_all
  from Cons.IH [OF a rest] c show ?case by simp
qed

subsection \<open>Publishing repeatedly\<close>

lemma publish_keeps:
  "client (snd (publish s r)) = client s \<and> localAudioTrack (snd (publish s r)) = localAudioTrack s"
  by (simp add: publish_def Let_def split: option.splits outcome.splits)

lemma publish_ref:
  assumes "client s \<noteq> None" and "localAudioTrack s \<noteq> None"
  shows "volumeIntervalRef (snd (publish s r)) =
           (case volumeIntervalRef s of
              Some t \<Rightarrow> Some t
            | None \<Rightarrow> (case r of Resolved u \<Rightarrow> Some (nextTimer s) | Rejected e \<Rightarrow> None))"
  using assms
  by (auto simp: publish_def Let_def startVolumeMonitoring_timer sdk_def
           split: option.splits outcome.splits)

lemma publishes_keep:
  "client (run (map Publish rs) s) = client s \<and>
   localAudioTrack (run (map Publish rs) s) = localAudioTrack s"
  by (induction rs arbitrary: s) (simp_all add: publish_keeps)

lemma publishes_running:
  assumes "volumeIntervalRef s = Some t"
  shows "volumeIntervalRef (run (map Publish rs) s) = Some t \<and>
         timers (run (map Publish rs) s) = timers s"
  using assms
proof (induction rs arbitrary: s)
  case Nil
  then show ?case by simp
next
  case (Cons r rs)
  have "volumeIntervalRef (snd (publish s r)) = Some t \<and> timers (snd (publish s r)) = timers s"
    using Cons.prems
    by (auto simp: publish_def Let_def startVolumeMonitoring_def
             split: option.splits outcome.splits)
  with Cons.IH [of "snd (publish s r)"] show ?case by simp
qed

lemma publishes_started:
  assumes "client s \<noteq> None" and "localAudioTrack s \<noteq> None" and "Resolved () \<in> set rs"
  shows "volumeIntervalRef (run (map Publish rs) s) \<noteq> None"
  using assms
proof (induction rs arbitrary: s)
  case Nil
  then show ?case by simp
next
  case (Cons r rs)
  let ?s1 = "snd (publish s r)"
  have keep: "client ?s1 \<noteq> None" "localAudioTrack ?s1 \<noteq> None"
    using Cons.prems by (simp_all add: publish_keeps)
  show ?case
  proof (cases "volumeIntervalRef ?s1")
    case None
    with publish_ref [OF Cons.prems(1) Cons.prems(2), of r] have "r \<noteq> Resolved ()"
      by (auto split: option.splits)
    with Cons.prems(3) have "Resolved () \<in> set rs" by auto
    from Cons.IH [OF keep this] show ?thesis by simp
  next
    case (Some t)
    from publishes_running [OF Some, of rs] show ?thesis by simp
  qed
qed

lemma timer_inv_card: "timer_inv s \<Longrightarrow> card (timers s) \<le> 1"
  by (auto simp: timer_inv_def split: option.splits)

lemma timer_inv_Some: "timer_inv s \<Longrightarrow> volumeIntervalRef s = Some t \<Longrightarrow> timers s = {t}"
  by (auto simp: timer_inv_def split: option.splits)

subsection \<open>Pending frame callbacks are never removed\<close>

lemma begin_call_frameCallbacks [simp]: "frameCallbacks (begin_call c s) = frameCallbacks s"
  by (cases c) (simp_all split: option.splits)

lemma resume_frameCallbacks: "\<exists>zs. frameCallbacks (resume k a s) = frameCallbacks s @ zs"
  by (auto simp: resume_def afterSubscribe_frameCallbacks
           split: continuation.splits answer.splits outcome.splits option.splits)

lemma settle_frameCallbacks: "\<exists>zs. frameCallbacks (settle k a s) = frameCallbacks s @ zs"
proof (cases "k < length (suspended s)")
  case True
  from resume_frameCallbacks
         [of "suspended s ! k" a "s\<lparr>suspended := take k (suspended s) @ drop (Suc k) (suspended s)\<rparr>"]
       True
  show ?thesis by (simp add: settle_def)
next
  case False
  then show ?thesis by (simp add: settle_def)
qed

lemma frameCallbacks_step: "\<exists>zs. frameCallbacks (step x s) = frameCallbacks s @ zs"
proof (cases "as_call x")
  case (Some ca)
  obtain c a where "as_call x = Some (c, a)" using Some by (cases ca) simp
  from awaited_call [OF this, of s] settle_frameCallbacks [of "length (suspended s)" a "begin_call c s"]
  show ?thesis by simp
next
  case None
  then show ?thesis
    by (cases x)
       (auto simp: settle_frameCallbacks init_def on_def onUserUnpublished_def onUserJoined_def
                   onUserLeft_def onConnectionStateChange_def onNetworkQuality_def
                   onStreamMessage_def onException_def intervalFires_def volumeCallback_def
                   Let_def
             split: option.splits)
qed

lemma frameCallbacks_run: "\<exists>zs. frameCallbacks (run xs s) = frameCallbacks s @ zs"
proof (induction xs arbitrary: s)
  case Nil
  then show ?case by simp
next
  case (Cons x xs)
  from frameCallbacks_step [of x s] obtain zs where a: "frameCallbacks (step x s) = frameCallbacks s @ zs"
    by blast
  from Cons.IH [of "step x s"] obtain zs' where "frameCallbacks (run xs (step x s)) = frameCallbacks (step x s) @ zs'"
    by blast
  with a show ?case by simp
qed

lemma pts_events_member:
  "Some t \<in> set ts \<Longrightarrow> AUDIO_PTS (case rf t of Some n \<Rightarrow> n | None \<Rightarrow> 0) \<in> set (pts_events rf ts)"
  by (induction ts) (auto simp: pts_events_def split: option.splits)

subsection \<open>The store of helpers\<close>

lemma world_inv_new: "world_inv new_world"
  by (simp add: world_inv_def new_world_def)

lemma getInstance_some:
  "static_instance w = Some a \<Longrightarrow> getInstance w = (a, w)"
  by (simp add: getInstance_def)

lemma getInstance_none:
  "static_instance w = None \<Longrightarrow>
     getInstance w =
       (nextRef w, w\<lparr>heap := (heap w)(nextRef w \<mapsto> new_RTCHelper), nextRef := Suc (nextRef w),
                      static_instance := Some (nextRef w)\<rparr>)"
  by (simp add: getInstance_def Let_def)

lemma getInstance_static: "static_instance (snd (getInstance w)) = Some (fst (getInstance w))"
  by (simp add: getInstance_def Let_def split: option.splits)

lemma world_inv_getInstance: "world_inv w \<Longrightarrow> world_inv (snd (getInstance w))"
  by (auto simp: world_inv_def getInstance_def Let_def less_Suc_eq split: option.splits)

lemma destroy_static: "heap w this \<noteq> None \<Longrightarrow> static_instance (destroy w this r) = None"
  by (auto simp: destroy_def split: option.splits)

lemma world_inv_destroy: "world_inv w \<Longrightarrow> world_inv (destroy w this r)"
  by (auto simp: world_inv_def destroy_def split: option.splits)

lemma perform_Destroy: "perform (Call this (Destroy r)) w = destroy w this r"
  by (simp add: destroy_def split: option.splits)

lemma world_inv_perform: "world_inv w \<Longrightarrow> world_inv (perform x w)"
proof (cases x)
  case GetInstance
  assume "world_inv w"
  then show ?thesis using GetInstance by (simp add: world_inv_getInstance)
next
  case (Call this y)
  assume "world_inv w"
  then show ?thesis using Call
    by (auto simp: world_inv_def split: option.splits)
qed

lemma world_inv_perform_all: "world_inv w \<Longrightarrow> world_inv (perform_all xs w)"
  by (induction xs arbitrary: w) (simp_all add: world_inv_perform)

lemma perform_keeps_static:
  assumes "static_instance w = Some a" and "\<not> is_destroy x"
  shows "static_instance (perform x w) = Some a"
proof (cases x)
  case GetInstance
  then show ?thesis using assms by (simp add: getInstance_some)
next
  case (Call this y)
  then show ?thesis using assms
    by (simp split: option.splits)
qed

lemma perform_all_keeps_static:
  assumes "static_instance w = Some a" and "list_all (\<lambda>x. \<not> is_destroy x) xs"
  shows "static_instance (perform_all xs w) = Some a"
  using assms
  by (induction xs arbitrary: w) (simp_all add: perform_keeps_static)

lemma perform_keeps_cleared:
  assumes "static_instance w = None" and "\<not> is_getInstance x"
  shows "static_instance (perform x w) = None"
proof (cases x)
  case GetInstance
  then show ?thesis using assms by simp
next
  case (Call this y)
  then show ?thesis using assms
    by (simp split: option.splits)
qed

lemma perform_all_keeps_cleared:
  assumes "static_instance w = None" and "list_all (\<lambda>x. \<not> is_getInstance x) xs"
  shows "static_instance (perform_all xs w) = None"
  using assms
  by (induction xs arbitrary: w) (simp_all add: perform_keeps_cleared)

lemma perform_keeps_objects: "heap w a \<noteq> None \<Longrightarrow> heap (perform x w) a \<noteq> None"
proof (cases x)
  case GetInstance
  assume "heap w a \<noteq> None"
  then show ?thesis using GetInstance
    by (auto simp: getInstance_def Let_def split: option.splits)
next
  case (Call this y)
  assume "heap w a \<noteq> None"
  then show ?thesis using Call
    by (auto split: option.splits)
qed

lemma perform_all_keeps_objects:
  "heap w a \<noteq> None \<Longrightarrow> heap (perform_all xs w) a \<noteq> None"
proof (induction xs arbitrary: w)
  case Nil
  then show ?case by simp
next
  case (Cons x xs)
  from Cons.prems have "heap (perform x w) a \<noteq> None" by (rule perform_keeps_objects)
  from Cons.IH [OF this] show ?case by simp
qed

lemma destroy_keeps_objects: "heap w a \<noteq> None \<Longrightarrow> heap (destroy w this r) a \<noteq> None"
  by (auto simp: destroy_def split: option.splits)

subsection \<open>The names the SDK delivers\<close>

lemma mappedState_sdk: "mappedState (sdk_state_name c) \<noteq> None"
  by (cases c) (simp_all add: mappedState_def stateMap_read_def stateMap_def)

subsection \<open>Sessions with overlapping calls\<close>

lemmas overlap_defs = settle_def resume_def suspend_def

lemma raced_session_fields:
  "client raced_session = Some 0"
  "localAudioTrack raced_session = None"
  "volumeIntervalRef raced_session = Some 1"
  "timers raced_session = {1}"
  "suspended raced_session = []"
  by (simp_all add: raced_session_def method_defs primitive_defs example_defs overlap_defs Let_def)

lemma overlapped_leave_session_fields:
  "connectionState overlapped_leave_session = DISCONNECTED"
  "localAudioTrack overlapped_leave_session = None"
  "volumeIntervalRef overlapped_leave_session = Some 1"
  "timers overlapped_leave_session = {1}"
  "suspended overlapped_leave_session = []"
  by (simp_all add: overlapped_leave_session_def method_defs primitive_defs example_defs
                    overlap_defs Let_def)

section \<open>Properties of the facade\<close>

subsection \<open>Leaving\<close>

text \<open>
  C1. With a client present, \<open>leave\<close> clears \<open>localAudioTrack\<close> and \<open>localVideoTrack\<close>
  whatever the SDK answers, because both are cleared before \<open>client.leave()\<close> is awaited.
  The connection state is set to \<open>DISCONNECTED\<close> only on the line after the \<open>await\<close>: when
  \<open>client.leave()\<close> resolves, \<open>leave\<close> returns and the state is \<open>DISCONNECTED\<close>; when it
  rejects, \<open>leave\<close> rejects with the same error and the state is what it was.
\<close>

theorem leave_clears_tracks:
  assumes "client s = Some c"
  shows "localAudioTrack (snd (leave s r)) = None \<and>
         localVideoTrack (snd (leave s r)) = None \<and>
         (case r of
            Resolved u \<Rightarrow>
              fst (leave s r) = Inr () \<and> connectionState (snd (leave s r)) = DISCONNECTED
          | Rejected e \<Rightarrow>
              fst (leave s r) = Inl e \<and> connectionState (snd (leave s r)) = connectionState s)"
  using assms
  by (simp add: leave_def leave_start_def leave_resume_def Let_def
           split: option.splits outcome.splits)

theorem leave_clears_tracks_witness:
  "client connected_session = Some 0 \<and>
   localAudioTrack (snd (leave connected_session (Rejected (Error ''gone'')))) = None \<and>
   localVideoTrack (snd (leave connected_session (Rejected (Error ''gone'')))) = None \<and>
   fst (leave connected_session (Rejected (Error ''gone''))) = Inl (Error ''gone'') \<and>
   connectionState (snd (leave connected_session (Rejected (Error ''gone'')))) = CONNECTED \<and>
   fst (leave connected_session (Resolved ())) = Inr () \<and>
   connectionState (snd (leave connected_session (Resolved ()))) = DISCONNECTED"
  using leave_clears_tracks [of connected_session 0 "Rejected (Error ''gone'')"]
        leave_clears_tracks [of connected_session 0 "Resolved ()"]
  by (simp add: connected_session_fields)

text \<open>
  The sentence as the specification has it, reset to \<open>DISCONNECTED\<close> even when the underlying
  call fails, does not hold: a connected session whose \<open>client.leave()\<close> rejects is still
  \<open>CONNECTED\<close> afterwards.
\<close>

theorem leave_rejected_keeps_state:
  "client connected_session \<noteq> None \<and>
   connectionState (snd (leave connected_session (Rejected (Error ''gone'')))) = CONNECTED \<and>
   connectionState (snd (leave connected_session (Rejected (Error ''gone'')))) \<noteq> DISCONNECTED"
  by (simp add: leave_def leave_start_def leave_resume_def Let_def connected_session_fields
           split: option.splits)

subsection \<open>Stopping the volume timer\<close>

text \<open>
  C2. In every state a session reaches, calls that overlap included, take a call of
  \<open>leave\<close> or of \<open>unpublish\<close> during whose \<open>await\<close> nothing else runs. Once \<open>leave\<close> has
  returned, and once \<open>unpublish\<close> has returned that was called while a local audio track was
  present or no timer was running, the timer reference is null and no interval timer of the
  helper is left, so a firing of any timer handle finds nothing to run; and from then on,
  as long as no \<open>publish\<close> is suspended and none is called, no operation adds a
  \<open>VOLUME_INDICATOR\<close> event to the trace.
\<close>

theorem timer_stopped_after_leave_or_unpublish:
  "(let s = run xs new_RTCHelper
    in leave s r = (Inr (), s') \<or>
       ((localAudioTrack s \<noteq> None \<or> volumeIntervalRef s = None) \<and>
        unpublish s r = (Inr (), s')) \<longrightarrow>
         volumeIntervalRef s' = None \<and> timers s' = {} \<and>
         intervalFires s' t us level = s' \<and>
         (AwaitPublish \<notin> set (suspended s') \<and> list_all (\<lambda>x. \<not> is_Publish x) ys \<longrightarrow>
            filter is_VOLUME_INDICATOR (emitted (run ys s')) =
            filter is_VOLUME_INDICATOR (emitted s')))"
proof -
  define s where "s = run xs new_RTCHelper"
  have inv: "timer_inv s" unfolding s_def by (rule timer_inv_reachable)
  have stopped: "volumeIntervalRef s' = None \<and> timers s' = {} \<and>
          intervalFires s' t us level = s' \<and>
          (AwaitPublish \<notin> set (suspended s') \<and> list_all (\<lambda>x. \<not> is_Publish x) ys \<longrightarrow>
             filter is_VOLUME_INDICATOR (emitted (run ys s')) =
             filter is_VOLUME_INDICATOR (emitted s'))"
    if h: "leave s r = (Inr (), s') \<or>
           ((localAudioTrack s \<noteq> None \<or> volumeIntervalRef s = None) \<and>
            unpublish s r = (Inr (), s'))"
  proof -
    from h have off: "volumeIntervalRef s' = None \<and> timers s' = {}"
      using unpublish_returned_any [OF inv] leave_settled [OF inv] by blast
    have quiet: "filter is_VOLUME_INDICATOR (emitted (run ys s')) =
                 filter is_VOLUME_INDICATOR (emitted s')"
      if "AwaitPublish \<notin> set (suspended s') \<and> list_all (\<lambda>x. \<not> is_Publish x) ys"
    proof -
      from off that have "idle s'" by (simp add: idle_def)
      from idle_run [OF this, of ys] that show ?thesis by simp
    qed
    from off quiet show ?thesis by (simp add: intervalFires_idle)
  qed
  then show ?thesis
    unfolding Let_def s_def by blast
qed

theorem timer_stopped_after_leave_or_unpublish_witness:
  "localAudioTrack published_session \<noteq> None \<and>
   volumeIntervalRef published_session = Some 1 \<and>
   unpublish published_session (Resolved ()) =
     (Inr (), snd (unpublish published_session (Resolved ()))) \<and>
   volumeIntervalRef (snd (unpublish published_session (Resolved ()))) = None \<and>
   timers (snd (unpublish published_session (Resolved ()))) = {} \<and>
   AwaitPublish \<notin> set (suspended (snd (unpublish published_session (Resolved ())))) \<and>
   list_all (\<lambda>x. \<not> is_Publish x) [IntervalFires 1 [] (\<lambda>t. 1), Join (Resolved ())] \<and>
   filter is_VOLUME_INDICATOR
     (emitted (run [IntervalFires 1 [] (\<lambda>t. 1), Join (Resolved ())]
                 (snd (unpublish published_session (Resolved ()))))) = [] \<and>
   leave published_session (Resolved ()) =
     (Inr (), snd (leave published_session (Resolved ()))) \<and>
   timers (snd (leave published_session (Resolved ()))) = {}"
proof -
  let ?xs = "[Init example_config 0, CreateAudioTrack None (Resolved example_mic),
              Publish (Resolved ())]"
  let ?ys = "[IntervalFires 1 [] (\<lambda>t. 1), Join (Resolved ())]"
  let ?u = "snd (unpublish published_session (Resolved ()))"
  let ?l = "snd (leave published_session (Resolved ()))"
  have ps: "run ?xs new_RTCHelper = published_session" by (simp add: published_session_def)
  have track: "localAudioTrack published_session \<noteq> None"
    by (simp add: published_session_fields)
  have ret: "unpublish published_session (Resolved ()) = (Inr (), ?u)"
    by (simp add: unpublish_def published_session_fields Let_def)
  have lret: "leave published_session (Resolved ()) = (Inr (), ?l)"
    by (simp add: leave_def leave_resume_def published_session_fields)
  have sus: "AwaitPublish \<notin> set (suspended ?u)"
    by (simp add: unpublish_suspended)
       (simp add: published_session_def method_defs primitive_defs example_defs Let_def)
  have em: "emitted ?u = []"
    by (simp add: unpublish_def published_session_fields Let_def)
  have nopub: "list_all (\<lambda>x. \<not> is_Publish x) ?ys" by simp
  note u = timer_stopped_after_leave_or_unpublish
             [of ?xs "Resolved ()" ?u 1 "[]" "\<lambda>t. 1" ?ys, unfolded Let_def ps]
  note l = timer_stopped_after_leave_or_unpublish
             [of ?xs "Resolved ()" ?l 1 "[]" "\<lambda>t. 1" ?ys, unfolded Let_def ps]
  from u track ret have a: "volumeIntervalRef ?u = None" and b: "timers ?u = {}" by blast+
  from u track ret sus nopub
  have "filter is_VOLUME_INDICATOR (emitted (run ?ys ?u)) = filter is_VOLUME_INDICATOR (emitted ?u)"
    by blast
  then have d: "filter is_VOLUME_INDICATOR (emitted (run ?ys ?u)) = []"
    by (simp only: em filter.simps)
  from l lret have e: "timers ?l = {}" by blast
  from track published_session_fields(3) ret a b sus nopub d lret e
  show ?thesis by blast
qed

text \<open>
  The sentence for every session state does not hold. \<open>publish\<close> starts the timer after its
  \<open>await\<close>; when \<open>leave\<close> has run in between, the timer runs in a session without a local
  audio track, \<open>unpublish\<close> returns at its guard with the timer still running, and the next
  firing emits \<open>VOLUME_INDICATOR\<close>. When the \<open>publish\<close> is resolved while \<open>leave\<close> itself is
  suspended, \<open>leave\<close> has returned and the timer runs.
\<close>

theorem unpublish_returns_with_timer_running:
  "localAudioTrack raced_session = None \<and>
   fst (unpublish raced_session (Resolved ())) = Inr () \<and>
   volumeIntervalRef (snd (unpublish raced_session (Resolved ()))) = Some 1 \<and>
   timers (snd (unpublish raced_session (Resolved ()))) = {1} \<and>
   emitted (intervalFires (snd (unpublish raced_session (Resolved ()))) 1 [example_user] (\<lambda>t. 1)) =
     emitted (snd (unpublish raced_session (Resolved ()))) @ [VOLUME_INDICATOR [(42, 1)]] \<and>
   suspended overlapped_leave_session = [] \<and>
   connectionState overlapped_leave_session = DISCONNECTED \<and>
   volumeIntervalRef overlapped_leave_session = Some 1 \<and>
   timers overlapped_leave_session = {1}"
proof -
  have same: "unpublish raced_session (Resolved ()) = (Inr (), raced_session)"
    by (simp add: unpublish_def raced_session_fields)
  have fire: "emitted (intervalFires raced_session 1 [example_user] (\<lambda>t. 1)) =
     emitted raced_session @ [VOLUME_INDICATOR [(42, 1)]]"
    by (simp add: intervalFires_def volumeCallback_def raced_session_fields example_user_def
                  Let_def)
  from same fire show ?thesis
    by (simp add: raced_session_fields overlapped_leave_session_fields)
qed

subsection \<open>Joining\<close>

text \<open>
  C3. With a client present, \<open>join\<close> sets the state to \<open>CONNECTING\<close> before it awaits the
  SDK. When the SDK's join rejects with \<open>e\<close>, the state becomes \<open>FAILED\<close>, the last two events
  are the state change and \<open>ERROR e\<close>, and \<open>join\<close> rejects with the same \<open>e\<close>. When it
  resolves, the state becomes \<open>CONNECTED\<close> and \<open>join\<close> returns. The notification for
  \<open>CONNECTING\<close> is the only one that can be missing, when the state was \<open>CONNECTING\<close> already.
\<close>

theorem join_outcomes:
  assumes "client s = Some c"
  shows "join s r = join_resume (join_start s c) r \<and>
         connectionState (join_start s c) = CONNECTING \<and>
         (case r of
            Resolved u \<Rightarrow>
              fst (join s r) = Inr () \<and>
              connectionState (snd (join s r)) = CONNECTED \<and>
              emitted (snd (join s r)) =
                emitted s
                @ (if connectionState s = CONNECTING then []
                   else [CONNECTION_STATE_CHANGED CONNECTING])
                @ [CONNECTION_STATE_CHANGED CONNECTED]
          | Rejected e \<Rightarrow>
              fst (join s r) = Inl e \<and>
              connectionState (snd (join s r)) = FAILED \<and>
              emitted (snd (join s r)) =
                emitted s
                @ (if connectionState s = CONNECTING then []
                   else [CONNECTION_STATE_CHANGED CONNECTING])
                @ [CONNECTION_STATE_CHANGED FAILED, ERROR e])"
  using assms
  by (simp add: join_def join_start_def join_resume_def setConnectionState_emitted
           split: outcome.splits)

theorem join_outcomes_witness:
  "client initialized_session = Some 0 \<and>
   fst (join initialized_session (Rejected (Error ''no network''))) = Inl (Error ''no network'') \<and>
   connectionState (snd (join initialized_session (Rejected (Error ''no network'')))) = FAILED \<and>
   emitted (snd (join initialized_session (Rejected (Error ''no network'')))) =
     [CONNECTION_STATE_CHANGED CONNECTING, CONNECTION_STATE_CHANGED FAILED,
      ERROR (Error ''no network'')] \<and>
   fst (join initialized_session (Resolved ())) = Inr () \<and>
   connectionState (snd (join initialized_session (Resolved ()))) = CONNECTED \<and>
   emitted (snd (join initialized_session (Resolved ()))) =
     [CONNECTION_STATE_CHANGED CONNECTING, CONNECTION_STATE_CHANGED CONNECTED]"
  using join_outcomes [of initialized_session 0 "Rejected (Error ''no network'')", THEN conjunct2]
        join_outcomes [of initialized_session 0 "Resolved ()", THEN conjunct2]
  by (simp add: initialized_session_fields)

subsection \<open>The setter of the connection state\<close>

text \<open>
  C4. \<open>setConnectionState\<close> emits \<open>CONNECTION_STATE_CHANGED\<close> exactly when the new state
  differs from the stored one; setting the same state a second time changes nothing, so two
  calls in a row with the same state emit at most one notification.
\<close>

theorem setConnectionState_twice:
  "emitted (setConnectionState s st) =
     (if connectionState s = st then emitted s else emitted s @ [CONNECTION_STATE_CHANGED st]) \<and>
   setConnectionState (setConnectionState s st) st = setConnectionState s st \<and>
   length (emitted (setConnectionState (setConnectionState s st) st)) \<le> Suc (length (emitted s))"
  by (simp add: setConnectionState_def emit_def)

subsection \<open>The singleton\<close>

text \<open>
  C5. In every world reached from the start of the program: \<open>getInstance\<close> returns a
  reference \<open>a\<close>, and as long as \<open>destroy\<close> is not called, every later \<open>getInstance\<close>
  returns the same \<open>a\<close> and constructs nothing, whatever else is called in between. After a
  \<open>destroy\<close> on an existing helper, the next \<open>getInstance\<close> returns a reference that no
  object had before, different from \<open>a\<close>, to a freshly constructed helper, and stores it in
  the static field.
\<close>

theorem singleton_until_destroyed:
  "(let w = perform_all acts new_world;
        a = fst (getInstance w);
        w1 = perform_all acts1 (snd (getInstance w))
    in (list_all (\<lambda>x. \<not> is_destroy x) acts1 \<longrightarrow> getInstance w1 = (a, w1)) \<and>
       (heap w1 this \<noteq> None \<and> list_all (\<lambda>x. \<not> is_getInstance x) acts2 \<longrightarrow>
          (let w2 = perform_all acts2 (destroy w1 this r);
               b = fst (getInstance w2);
               w3 = snd (getInstance w2)
           in b \<noteq> a \<and> heap w2 b = None \<and> heap w3 b = Some new_RTCHelper \<and>
              static_instance w3 = Some b)))"
proof -
  define w where "w = perform_all acts new_world"
  define a where "a = fst (getInstance w)"
  define w0 where "w0 = snd (getInstance w)"
  define w1 where "w1 = perform_all acts1 w0"
  have inv0: "world_inv w0"
    unfolding w0_def w_def by (simp add: world_inv_getInstance world_inv_perform_all world_inv_new)
  have st0: "static_instance w0 = Some a"
    unfolding w0_def a_def by (rule getInstance_static)
  with inv0 have ex0: "heap w0 a \<noteq> None"
    by (simp add: world_inv_def)
  have inv1: "world_inv w1" unfolding w1_def using inv0 by (rule world_inv_perform_all)
  have ex1: "heap w1 a \<noteq> None" unfolding w1_def using ex0 by (rule perform_all_keeps_objects)
  have same: "getInstance w1 = (a, w1)" if "list_all (\<lambda>x. \<not> is_destroy x) acts1"
    unfolding w1_def using perform_all_keeps_static [OF st0 that] by (rule getInstance_some)
  have fresh: "(let w2 = perform_all acts2 (destroy w1 this r);
               b = fst (getInstance w2);
               w3 = snd (getInstance w2)
           in b \<noteq> a \<and> heap w2 b = None \<and> heap w3 b = Some new_RTCHelper \<and>
              static_instance w3 = Some b)"
    if h: "heap w1 this \<noteq> None \<and> list_all (\<lambda>x. \<not> is_getInstance x) acts2"
  proof -
    define w2 where "w2 = perform_all acts2 (destroy w1 this r)"
    from h have "static_instance (destroy w1 this r) = None" by (simp add: destroy_static)
    with h have cleared: "static_instance w2 = None"
      unfolding w2_def by (simp add: perform_all_keeps_cleared)
    have inv2: "world_inv w2"
      unfolding w2_def using inv1 by (simp add: world_inv_destroy world_inv_perform_all)
    have ex2: "heap w2 a \<noteq> None"
      unfolding w2_def using ex1 by (simp add: destroy_keeps_objects perform_all_keeps_objects)
    from inv2 have bound: "heap w2 x \<noteq> None \<longrightarrow> x < nextRef w2" for x
      by (simp add: world_inv_def)
    from bound [of "nextRef w2"] have new: "heap w2 (nextRef w2) = None" by simp
    with ex2 have "nextRef w2 \<noteq> a" by auto
    with new show ?thesis
      unfolding w2_def [symmetric] Let_def by (simp add: getInstance_none [OF cleared])
  qed
  from same fresh show ?thesis
    unfolding Let_def w1_def w0_def a_def w_def by blast
qed

theorem singleton_until_destroyed_witness:
  "list_all (\<lambda>x. \<not> is_destroy x) [GetInstance, Call 0 (Init example_config 0), GetInstance] \<and>
   fst (getInstance new_world) = 0 \<and>
   fst (getInstance (perform_all [GetInstance, Call 0 (Init example_config 0), GetInstance]
                       (snd (getInstance new_world)))) = 0 \<and>
   heap (perform_all [GetInstance, Call 0 (Init example_config 0), GetInstance]
           (snd (getInstance new_world))) 0 \<noteq> None \<and>
   list_all (\<lambda>x. \<not> is_getInstance x) [Call 0 (Join (Resolved ()))] \<and>
   fst (getInstance
          (perform_all [Call 0 (Join (Resolved ()))]
             (destroy (perform_all [GetInstance, Call 0 (Init example_config 0), GetInstance]
                         (snd (getInstance new_world))) 0 (Resolved ())))) = 1"
proof -
  let ?acts1 = "[GetInstance, Call 0 (Init example_config 0), GetInstance]"
  let ?acts2 = "[Call 0 (Join (Resolved ()))]"
  let ?w1 = "perform_all ?acts1 (snd (getInstance new_world))"
  let ?w1' = "perform_all ?acts1 (snd (getInstance (perform_all [] new_world)))"
  let ?w2 = "perform_all ?acts2 (destroy ?w1 0 (Resolved ()))"
  note main = singleton_until_destroyed [of "[]" ?acts1 0 ?acts2 "Resolved ()", unfolded Let_def]
  have first: "fst (getInstance new_world) = 0"
    by (simp add: getInstance_def new_world_def Let_def)
  have nd: "list_all (\<lambda>x. \<not> is_destroy x) ?acts1" by simp
  have ng: "list_all (\<lambda>x. \<not> is_getInstance x) ?acts2" by simp
  have ex: "heap ?w1 0 \<noteq> None"
    by (simp add: getInstance_def new_world_def Let_def)
  from main nd have "getInstance ?w1' = (fst (getInstance (perform_all [] new_world)), ?w1')"
    by blast
  then have "fst (getInstance ?w1) = fst (getInstance new_world)"
    by (simp only: perform_all.simps(1) fst_conv)
  with first have same: "fst (getInstance ?w1) = 0" by (simp only:)
  have b: "fst (getInstance ?w2) = 1"
    by (simp add: getInstance_def new_world_def Let_def destroy_def)
  from nd first same ex ng b show ?thesis by blast
qed

subsection \<open>Subscription predicates\<close>

text \<open>
  C6. When the predicate that belongs to the published media (\<open>shouldSubscribeAudio\<close> for
  audio, \<open>shouldSubscribeVideo\<close> otherwise) answers false for the participant, the
  \<open>user-published\<close> handler leaves the whole state as it was: no call on the SDK, no event.
  When that predicate was not supplied, the handler's next step is \<open>client.subscribe\<close> for
  this participant and media, and once that has resolved for audio or video the
  \<open>USER_PUBLISHED\<close> event follows.
\<close>

theorem predicate_gates_subscription:
  "((if mediaType = Audio then shouldSubscribeAudio s else shouldSubscribeVideo s) = Some p \<and>
      \<not> p (ru_uid user) \<longrightarrow>
      onUserPublished s user mediaType r rf = s) \<and>
   (client s = Some c \<and>
      (if mediaType = Audio then shouldSubscribeAudio s else shouldSubscribeVideo s) = None \<longrightarrow>
      take (Suc (length (sdkCalls s))) (sdkCalls (onUserPublished s user mediaType r rf)) =
        sdkCalls s @ [ClientSubscribe c (ru_uid user) mediaType] \<and>
      (case r of
         Rejected e \<Rightarrow> emitted (onUserPublished s user mediaType r rf) = emitted s
       | Resolved user' \<Rightarrow>
           take (Suc (length (emitted s))) (emitted (onUserPublished s user mediaType r rf)) =
             emitted s @
               (case mediaType of
                  Audio \<Rightarrow> [USER_PUBLISHED (RemoteUser (ru_uid user') (ru_audioTrack user') True) Audio]
                | Video \<Rightarrow> [USER_PUBLISHED (RemoteVideoUser (ru_uid user') (ru_videoTrack user') True) Video]
                | Datachannel \<Rightarrow> [])))"
proof (intro conjI impI)
  assume "(if mediaType = Audio then shouldSubscribeAudio s else shouldSubscribeVideo s) = Some p \<and>
      \<not> p (ru_uid user)"
  then show "onUserPublished s user mediaType r rf = s"
    by (auto simp: onUserPublished_def shouldSubscribe_def split: option.splits if_splits)
next
  assume a: "client s = Some c \<and>
      (if mediaType = Audio then shouldSubscribeAudio s else shouldSubscribeVideo s) = None"
  then show "take (Suc (length (sdkCalls s))) (sdkCalls (onUserPublished s user mediaType r rf)) =
        sdkCalls s @ [ClientSubscribe c (ru_uid user) mediaType]"
    by (auto simp: onUserPublished_def shouldSubscribe_def startAudioPTSEmission_def Let_def
             split: option.splits if_splits outcome.splits)
  from a show "case r of
         Rejected e \<Rightarrow> emitted (onUserPublished s user mediaType r rf) = emitted s
       | Resolved user' \<Rightarrow>
           take (Suc (length (emitted s))) (emitted (onUserPublished s user mediaType r rf)) =
             emitted s @
               (case mediaType of
                  Audio \<Rightarrow> [USER_PUBLISHED (RemoteUser (ru_uid user') (ru_audioTrack user') True) Audio]
                | Video \<Rightarrow> [USER_PUBLISHED (RemoteVideoUser (ru_uid user') (ru_videoTrack user') True) Video]
                | Datachannel \<Rightarrow> [])"
    by (cases mediaType)
       (auto simp: onUserPublished_def shouldSubscribe_def startAudioPTSEmission_def Let_def
                   emitPTS_emitted
             split: option.splits if_splits outcome.splits)
qed

theorem predicate_gates_subscription_witness:
  "shouldSubscribeAudio filtering_session = Some (\<lambda>u. u \<noteq> 42) \<and>
   \<not> (\<lambda>u. u \<noteq> (42::int)) (ru_uid example_user) \<and>
   onUserPublished filtering_session example_user Audio (Resolved example_user) (\<lambda>t. Some 3)
     = filtering_session \<and>
   onUserPublished filtering_session example_user Video (Resolved example_user) (\<lambda>t. Some 3)
     = filtering_session \<and>
   client initialized_session = Some 0 \<and>
   shouldSubscribeAudio initialized_session = None \<and>
   take (Suc (length (sdkCalls initialized_session)))
     (sdkCalls (onUserPublished initialized_session example_user Audio
                       (Resolved example_user) (\<lambda>t. Some 3))) =
     sdkCalls initialized_session @ [ClientSubscribe 0 42 Audio] \<and>
   take (Suc 0) (emitted (onUserPublished initialized_session example_user Audio
                       (Resolved example_user) (\<lambda>t. Some 3))) =
     [USER_PUBLISHED (RemoteUser 42 (Some 5) True) Audio]"
proof -
  note gate_audio = predicate_gates_subscription
      [of Audio filtering_session "\<lambda>u. u \<noteq> 42" example_user "Resolved example_user"
          "\<lambda>t. Some 3" 0, THEN conjunct1]
  note gate_video = predicate_gates_subscription
      [of Video filtering_session "\<lambda>u. False" example_user "Resolved example_user"
          "\<lambda>t. Some 3" 0, THEN conjunct1]
  note default = predicate_gates_subscription
      [of Audio initialized_session "\<lambda>u. False" example_user "Resolved example_user"
          "\<lambda>t. Some 3" 0, THEN conjunct2]
  have a: "onUserPublished filtering_session example_user Audio (Resolved example_user) (\<lambda>t. Some 3)
     = filtering_session"
    using gate_audio by (simp add: filtering_session_fields example_user_def)
  have b: "onUserPublished filtering_session example_user Video (Resolved example_user) (\<lambda>t. Some 3)
     = filtering_session"
    using gate_video by (simp add: filtering_session_fields example_user_def)
  have c: "take (Suc (length (sdkCalls initialized_session)))
     (sdkCalls (onUserPublished initialized_session example_user Audio
                       (Resolved example_user) (\<lambda>t. Some 3))) =
     sdkCalls initialized_session @ [ClientSubscribe 0 42 Audio] \<and>
   take (Suc 0) (emitted (onUserPublished initialized_session example_user Audio
                       (Resolved example_user) (\<lambda>t. Some 3))) =
     [USER_PUBLISHED (RemoteUser 42 (Some 5) True) Audio]"
    using default
    by (simp add: initialized_session_fields initialized_session_predicates(1,2) example_user_def)
  from a b c show ?thesis
    by (simp add: filtering_session_fields initialized_session_fields
                  initialized_session_predicates(1,2) example_user_def)
qed

subsection \<open>The connection-state table\<close>

text \<open>
  C7. For each of the five names the SDK delivers, the handler of
  \<open>connection-state-change\<close> passes the entry of \<open>stateMap\<close> for that name to
  \<open>setConnectionState\<close>; so it does for any name that has an entry. A name without an entry
  gives \<open>DISCONNECTED\<close>. The last part is stated for the names that are not one of the twelve
  members an object literal inherits: those are found by the property read, are no
  connection-state names, and are not delivered by the SDK.
\<close>

theorem connection_state_table:
  "onConnectionStateChange s (sdk_state_name c) =
     Some (setConnectionState s
             (case c of
                SDK_DISCONNECTED \<Rightarrow> DISCONNECTED
              | SDK_CONNECTING \<Rightarrow> CONNECTING
              | SDK_RECONNECTING \<Rightarrow> RECONNECTING
              | SDK_CONNECTED \<Rightarrow> CONNECTED
              | SDK_DISCONNECTING \<Rightarrow> DISCONNECTED)) \<and>
   (map_of stateMap curState = Some st \<longrightarrow>
      onConnectionStateChange s curState = Some (setConnectionState s st)) \<and>
   (map_of stateMap curState = None \<and> curState \<notin> set objectPrototypeMembers \<longrightarrow>
      onConnectionStateChange s curState = Some (setConnectionState s DISCONNECTED))"
proof (intro conjI impI)
  show "onConnectionStateChange s (sdk_state_name c) =
     Some (setConnectionState s
             (case c of
                SDK_DISCONNECTED \<Rightarrow> DISCONNECTED
              | SDK_CONNECTING \<Rightarrow> CONNECTING
              | SDK_RECONNECTING \<Rightarrow> RECONNECTING
              | SDK_CONNECTED \<Rightarrow> CONNECTED
              | SDK_DISCONNECTING \<Rightarrow> DISCONNECTED))"
    by (cases c)
       (simp_all add: onConnectionStateChange_def mappedState_def stateMap_read_def stateMap_def)
next
  assume "map_of stateMap curState = Some st"
  then show "onConnectionStateChange s curState = Some (setConnectionState s st)"
    by (simp add: onConnectionStateChange_def mappedState_def stateMap_read_def)
next
  assume "map_of stateMap curState = None \<and> curState \<notin> set objectPrototypeMembers"
  then show "onConnectionStateChange s curState = Some (setConnectionState s DISCONNECTED)"
    by (simp add: onConnectionStateChange_def mappedState_def stateMap_read_def)
qed

theorem connection_state_table_witness:
  "map_of stateMap ''RECONNECTING'' = Some RECONNECTING \<and>
   onConnectionStateChange connected_session ''RECONNECTING'' =
     Some (setConnectionState connected_session RECONNECTING) \<and>
   map_of stateMap ''SUSPENDED'' = None \<and>
   ''SUSPENDED'' \<notin> set objectPrototypeMembers \<and>
   onConnectionStateChange connected_session ''SUSPENDED'' =
     Some (setConnectionState connected_session DISCONNECTED)"
proof -
  have a: "map_of stateMap ''RECONNECTING'' = Some RECONNECTING"
    by (simp add: stateMap_def)
  have b: "map_of stateMap ''SUSPENDED'' = None \<and> ''SUSPENDED'' \<notin> set objectPrototypeMembers"
    by (simp add: stateMap_def objectPrototypeMembers_def)
  from connection_state_table [of connected_session SDK_CONNECTED "''RECONNECTING''" RECONNECTING] a
  have c: "onConnectionStateChange connected_session ''RECONNECTING'' =
     Some (setConnectionState connected_session RECONNECTING)"
    by blast
  from connection_state_table [of connected_session SDK_CONNECTED "''SUSPENDED''" DISCONNECTED] b
  have d: "onConnectionStateChange connected_session ''SUSPENDED'' =
     Some (setConnectionState connected_session DISCONNECTED)"
    by blast
  from a b c d show ?thesis by blast
qed

subsection \<open>Starting the volume timer\<close>

text \<open>
  C8. In every state a session reaches from its construction, after any number of
  \<open>publish\<close> calls in a row the helper has at most one interval timer. With client and
  audio track present and at least one of the calls resolved by the SDK it has exactly one,
  the one \<open>volumeIntervalRef\<close> holds. While a timer is running, further \<open>publish\<close> calls
  create none: reference, timers and the next handle stay as they were.
\<close>

theorem publish_starts_one_timer:
  "(let s = run xs new_RTCHelper; s' = run (map Publish rs) s
    in card (timers s') \<le> 1 \<and>
       (client s \<noteq> None \<and> localAudioTrack s \<noteq> None \<and> Resolved () \<in> set rs \<longrightarrow>
          card (timers s') = 1 \<and> (\<exists>t. volumeIntervalRef s' = Some t \<and> timers s' = {t})) \<and>
       (volumeIntervalRef s \<noteq> None \<longrightarrow>
          volumeIntervalRef s' = volumeIntervalRef s \<and> timers s' = timers s \<and>
          nextTimer s' = nextTimer s))"
proof -
  define s where "s = run xs new_RTCHelper"
  define s' where "s' = run (map Publish rs) s"
  have inv: "timer_inv s'"
    unfolding s'_def s_def by (simp add: timer_inv_run timer_inv_new)
  have one: "card (timers s') \<le> 1" using inv by (rule timer_inv_card)
  have started: "card (timers s') = 1 \<and> (\<exists>t. volumeIntervalRef s' = Some t \<and> timers s' = {t})"
    if "client s \<noteq> None \<and> localAudioTrack s \<noteq> None \<and> Resolved () \<in> set rs"
  proof -
    from that have "volumeIntervalRef s' \<noteq> None"
      unfolding s'_def by (simp add: publishes_started)
    then obtain t where t: "volumeIntervalRef s' = Some t" by auto
    with inv have "timers s' = {t}" by (simp add: timer_inv_Some)
    with t show ?thesis by simp
  qed
  have running: "volumeIntervalRef s' = volumeIntervalRef s \<and> timers s' = timers s \<and>
                 nextTimer s' = nextTimer s"
    if "volumeIntervalRef s \<noteq> None"
  proof -
    from that obtain t where t: "volumeIntervalRef s = Some t" by auto
    have "nextTimer (run (map Publish rs) s0) = nextTimer s0" if "volumeIntervalRef s0 = Some t" for s0
      using that
    proof (induction rs arbitrary: s0)
      case Nil
      then show ?case by simp
    next
      case (Cons r rs)
      have "volumeIntervalRef (snd (publish s0 r)) = Some t \<and> nextTimer (snd (publish s0 r)) = nextTimer s0"
        using Cons.prems
        by (auto simp: publish_def Let_def startVolumeMonitoring_def sdk_def
                 split: option.splits outcome.splits)
      with Cons.IH [of "snd (publish s0 r)"] show ?case by simp
    qed
    with publishes_running [OF t, of rs] t show ?thesis unfolding s'_def by simp
  qed
  from one started running show ?thesis
    unfolding s'_def s_def Let_def by blast
qed

theorem publish_starts_one_timer_witness:
  "client ready_session \<noteq> None \<and> localAudioTrack ready_session \<noteq> None \<and>
   Resolved () \<in> set [Resolved (), Rejected (Error ''busy''), Resolved ()] \<and>
   card (timers (run (map Publish [Resolved (), Rejected (Error ''busy''), Resolved ()])
                   ready_session)) = 1 \<and>
   volumeIntervalRef (run (map Publish [Resolved (), Rejected (Error ''busy''), Resolved ()])
                        ready_session) = Some 1 \<and>
   volumeIntervalRef published_session \<noteq> None \<and>
   timers (run (map Publish [Resolved (), Resolved ()]) published_session) = {1}"
proof -
  have pre: "client ready_session \<noteq> None \<and> localAudioTrack ready_session \<noteq> None \<and>
             Resolved () \<in> set [Resolved (), Rejected (Error ''busy''), Resolved ()]"
    by (simp add: ready_session_fields)
  from publish_starts_one_timer
         [of "[Init example_config 0, CreateAudioTrack None (Resolved example_mic)]"
             "[Resolved (), Rejected (Error ''busy''), Resolved ()]"] pre
  have one: "card (timers (run (map Publish [Resolved (), Rejected (Error ''busy''), Resolved ()])
                   ready_session)) = 1"
    unfolding Let_def ready_session_def by blast
  have ref: "volumeIntervalRef (run (map Publish [Resolved (), Rejected (Error ''busy''), Resolved ()])
                        ready_session) = Some 1"
    by (simp add: publish_def ready_session_fields Let_def startVolumeMonitoring_def sdk_def)
  have run: "volumeIntervalRef published_session \<noteq> None"
    by (simp add: published_session_fields)
  from publish_starts_one_timer
         [of "[Init example_config 0, CreateAudioTrack None (Resolved example_mic),
               Publish (Resolved ())]" "[Resolved (), Resolved ()]"] run
  have same: "timers (run (map Publish [Resolved (), Resolved ()]) published_session) = {1}"
    unfolding Let_def published_session_def [symmetric]
    by (simp add: published_session_fields)
  from pre one ref run same show ?thesis by blast
qed

subsection \<open>The playback-position loop\<close>

text \<open>
  C9. After \<open>startAudioPTSEmission\<close> for a track, whatever sequence of operations follows
  (\<open>unpublish\<close>, \<open>leave\<close>, \<open>destroy\<close>, the \<open>user-unpublished\<close> and \<open>user-left\<close> callbacks,
  further frames), the callback of that track is still pending; a rendering frame leaves
  the pending callbacks as they were and emits one \<open>AUDIO_PTS\<close> for each of them that holds
  a track, this one included. Nothing in the class cancels a requested frame, and
  \<open>getStats()\<close> is taken to answer whenever it is asked.
\<close>

theorem pts_loop_never_stops:
  "(let s1 = run xs (startAudioPTSEmission s audioTrack rf);
        s2 = animationFrame s1 rf'
    in audioTrack \<in> set (frameCallbacks s1) \<and>
       frameCallbacks s2 = frameCallbacks s1 \<and>
       emitted s2 = emitted s1 @ pts_events rf' (frameCallbacks s1) \<and>
       (case audioTrack of
          Some t \<Rightarrow> AUDIO_PTS (case rf' t of Some n \<Rightarrow> n | None \<Rightarrow> 0)
                      \<in> set (pts_events rf' (frameCallbacks s1))
        | None \<Rightarrow> True))"
proof -
  define s1 where "s1 = run xs (startAudioPTSEmission s audioTrack rf)"
  from frameCallbacks_run [of xs "startAudioPTSEmission s audioTrack rf"]
  obtain zs where "frameCallbacks s1 = frameCallbacks s @ [audioTrack] @ zs"
    unfolding s1_def by (auto simp: startAudioPTSEmission_def)
  then have armed: "audioTrack \<in> set (frameCallbacks s1)" by simp
  have again: "case audioTrack of
          Some t \<Rightarrow> AUDIO_PTS (case rf' t of Some n \<Rightarrow> n | None \<Rightarrow> 0)
                      \<in> set (pts_events rf' (frameCallbacks s1))
        | None \<Rightarrow> True"
  proof (cases audioTrack)
    case None
    then show ?thesis by simp
  next
    case (Some t)
    with armed have "Some t \<in> set (frameCallbacks s1)" by simp
    from pts_events_member [OF this, of rf'] Some show ?thesis by simp
  qed
  from armed again show ?thesis
    unfolding Let_def s1_def [symmetric]
    by (simp add: animationFrame_emitted)
qed

subsection \<open>Muting without a microphone track\<close>

text \<open>
  C10. While \<open>localAudioTrack\<close> is null, \<open>getMuted\<close> answers false, and \<open>setMuted\<close> returns
  without an error, without calling the SDK and without changing anything.
\<close>

theorem no_track_not_muted:
  assumes "localAudioTrack s = None"
  shows "getMuted s = False \<and> setMuted s muted r = (Inr (), s)"
  using assms by (simp add: getMuted_def setMuted_def)

theorem no_track_not_muted_witness:
  "localAudioTrack initialized_session = None \<and>
   getMuted initialized_session = False \<and>
   setMuted initialized_session True (Resolved ()) = (Inr (), initialized_session) \<and>
   setMuted initialized_session True (Rejected (Error ''x'')) = (Inr (), initialized_session)"
  using no_track_not_muted [of initialized_session True "Resolved ()"]
        no_track_not_muted [of initialized_session True "Rejected (Error ''x'')"]
  by (simp add: initialized_session_fields)


end
